theory Spec2Isabelle
  imports Main "HOL-Library.Multiset"
begin

section \<open>Values and the Python operations on them\<close>

text \<open>
  A record, a filter expression and the whole store are JSON values. Numbers are Python's
  unbounded integers (floating point numbers are left out of the model). A Python \<open>dict\<close>
  keeps its keys in insertion order, so it is an association list; its keys are distinct.
\<close>

datatype json =
    JNull
  | JBool bool
  | JInt int
  | JStr string
  | JList "json list"
  | JDict "(string \<times> json) list"

text \<open>
  The exceptions of \<open>cafedb.py\<close> (\<open>CafeDBError\<close> and its three subclasses, with their
  messages) and the built-in exceptions its statements raise. \<open>Raised\<close> stands for any other
  exception thrown by code the caller supplies (a predicate, an updater, a transaction body).
\<close>

datatype error =
    CafeDBError string
  | TableNotFoundError string
  | TableExistsError string
  | QueryError string
  | KeyError string
  | TypeError
  | AttributeError
  | ValueError
  | Raised string

text \<open>
  What the module takes from outside: the regular expression engine
  (\<open>re.match\<close> and \<open>re.search\<close> with \<open>re.IGNORECASE\<close>; \<open>None\<close> is \<open>re.error\<close>),
  \<open>str()\<close>, \<open>str.lower()\<close>, and the clock: \<open>now k\<close> is what the \<open>k\<close>-th call of
  \<open>datetime.now().isoformat()\<close> returns. \<open>dict_slice\<close> is the exception of \<open>d[n:]\<close> on a
  dict, which depends on the version of Python (\<open>TypeError\<close> before 3.12, \<open>KeyError\<close> from
  3.12 on). The theorems hold for every such environment.
\<close>

record ext =
  re_match :: "string \<Rightarrow> string \<Rightarrow> bool option"
  re_search :: "string \<Rightarrow> string \<Rightarrow> bool option"
  py_str :: "json \<Rightarrow> string"
  lower :: "string \<Rightarrow> string"
  now :: "nat \<Rightarrow> string"
  dict_slice :: error

definition bool_int :: "bool \<Rightarrow> int" where
  "bool_int b = (if b then 1 else 0)"

definition keys :: "('k \<times> 'v) list \<Rightarrow> 'k list" where
  "keys d = map fst d"

text \<open>Python's \<open>==\<close>: \<open>True == 1\<close>, lists elementwise, dicts regardless of key order.\<close>

fun py_eq :: "json \<Rightarrow> json \<Rightarrow> bool"
  and py_eq_list :: "json list \<Rightarrow> json list \<Rightarrow> bool"
  and py_eq_items :: "(string \<times> json) list \<Rightarrow> (string \<times> json) list \<Rightarrow> bool" where
  "py_eq JNull JNull = True"
| "py_eq (JBool a) (JBool b) = (a = b)"
| "py_eq (JBool a) (JInt j) = (bool_int a = j)"
| "py_eq (JInt i) (JBool b) = (i = bool_int b)"
| "py_eq (JInt i) (JInt j) = (i = j)"
| "py_eq (JStr s) (JStr t) = (s = t)"
| "py_eq (JList xs) (JList ys) = py_eq_list xs ys"
| "py_eq (JDict a) (JDict b) = (length a = length b \<and> py_eq_items a b)"
| "py_eq _ _ = False"
| "py_eq_list [] [] = True"
| "py_eq_list (x # xs) (y # ys) = (py_eq x y \<and> py_eq_list xs ys)"
| "py_eq_list _ _ = False"
| "py_eq_items [] b = True"
| "py_eq_items ((k, v) # rest) b =
     (case map_of b k of None \<Rightarrow> False | Some w \<Rightarrow> py_eq v w \<and> py_eq_items rest b)"

text \<open>Truth value of an object in a condition (\<open>if x:\<close>, \<open>not x\<close>).\<close>

fun truthy :: "json \<Rightarrow> bool" where
  "truthy JNull = False"
| "truthy (JBool b) = b"
| "truthy (JInt i) = (i \<noteq> 0)"
| "truthy (JStr s) = (s \<noteq> [])"
| "truthy (JList xs) = (xs \<noteq> [])"
| "truthy (JDict d) = (d \<noteq> [])"

datatype ordering = LT | EQ | GT

definition int_cmp :: "int \<Rightarrow> int \<Rightarrow> ordering" where
  "int_cmp i j = (if i < j then LT else if i = j then EQ else GT)"

text \<open>Strings compare by code point, position by position.\<close>

fun str_cmp :: "string \<Rightarrow> string \<Rightarrow> ordering" where
  "str_cmp [] [] = EQ"
| "str_cmp [] (b # t) = LT"
| "str_cmp (a # s) [] = GT"
| "str_cmp (a # s) (b # t) =
     (if a = b then str_cmp s t
      else if (of_char a :: nat) < of_char b then LT else GT)"

text \<open>
  The ordered comparisons \<open>< <= > >=\<close>. Numbers compare with numbers, strings with strings,
  lists with lists (at the first position where they differ under \<open>==\<close>, else by length);
  every other pair raises \<open>TypeError\<close>.
\<close>

fun py_cmp :: "json \<Rightarrow> json \<Rightarrow> error + ordering"
  and py_cmp_list :: "json list \<Rightarrow> json list \<Rightarrow> error + ordering" where
  "py_cmp (JInt i) (JInt j) = Inr (int_cmp i j)"
| "py_cmp (JInt i) (JBool b) = Inr (int_cmp i (bool_int b))"
| "py_cmp (JBool a) (JInt j) = Inr (int_cmp (bool_int a) j)"
| "py_cmp (JBool a) (JBool b) = Inr (int_cmp (bool_int a) (bool_int b))"
| "py_cmp (JStr s) (JStr t) = Inr (str_cmp s t)"
| "py_cmp (JList xs) (JList ys) = py_cmp_list xs ys"
| "py_cmp _ _ = Inl TypeError"
| "py_cmp_list [] [] = Inr EQ"
| "py_cmp_list [] (y # ys) = Inr LT"
| "py_cmp_list (x # xs) [] = Inr GT"
| "py_cmp_list (x # xs) (y # ys) =
     (if py_eq x y then py_cmp_list xs ys else py_cmp x y)"

definition py_lt :: "json \<Rightarrow> json \<Rightarrow> error + bool" where
  "py_lt a b = (case py_cmp a b of Inl e \<Rightarrow> Inl e | Inr c \<Rightarrow> Inr (c = LT))"

definition py_le :: "json \<Rightarrow> json \<Rightarrow> error + bool" where
  "py_le a b = (case py_cmp a b of Inl e \<Rightarrow> Inl e | Inr c \<Rightarrow> Inr (c \<noteq> GT))"

definition py_gt :: "json \<Rightarrow> json \<Rightarrow> error + bool" where
  "py_gt a b = (case py_cmp a b of Inl e \<Rightarrow> Inl e | Inr c \<Rightarrow> Inr (c = GT))"

definition py_ge :: "json \<Rightarrow> json \<Rightarrow> error + bool" where
  "py_ge a b = (case py_cmp a b of Inl e \<Rightarrow> Inl e | Inr c \<Rightarrow> Inr (c \<noteq> LT))"

fun startswith :: "string \<Rightarrow> string \<Rightarrow> bool" where
  "startswith s [] = True"
| "startswith [] (b # p) = False"
| "startswith (a # s) (b # p) = (a = b \<and> startswith s p)"

definition endswith :: "string \<Rightarrow> string \<Rightarrow> bool" where
  "endswith s p = startswith (rev s) (rev p)"

text \<open>\<open>contains s t\<close> is \<open>t in s\<close> on two strings.\<close>

fun contains :: "string \<Rightarrow> string \<Rightarrow> bool" where
  "contains [] t = (t = [])"
| "contains (a # s) t = (startswith (a # s) t \<or> contains s t)"

text \<open>
  \<open>x in c\<close>: an element of a list (under \<open>==\<close>), a substring of a string (the left operand
  must be a string), a key of a dict (the left operand must be hashable); the other values
  are not iterable.
\<close>

fun py_in :: "json \<Rightarrow> json \<Rightarrow> error + bool" where
  "py_in x (JList ys) = Inr (list_ex (py_eq x) ys)"
| "py_in (JStr t) (JStr s) = Inr (contains s t)"
| "py_in x (JStr s) = Inl TypeError"
| "py_in (JStr k) (JDict d) = Inr (k \<in> set (keys d))"
| "py_in (JList xs) (JDict d) = Inl TypeError"
| "py_in (JDict a) (JDict d) = Inl TypeError"
| "py_in x (JDict d) = Inr False"
| "py_in x c = Inl TypeError"

text \<open>\<open>row[field]\<close> with a string key.\<close>

fun py_getitem :: "json \<Rightarrow> string \<Rightarrow> error + json" where
  "py_getitem (JDict d) k = (case map_of d k of None \<Rightarrow> Inl (KeyError k) | Some v \<Rightarrow> Inr v)"
| "py_getitem x k = Inl TypeError"

text \<open>\<open>x.get(k, default)\<close>: a method of dicts only.\<close>

fun py_get :: "json \<Rightarrow> string \<Rightarrow> json \<Rightarrow> error + json" where
  "py_get (JDict d) k dflt = (case map_of d k of None \<Rightarrow> Inr dflt | Some v \<Rightarrow> Inr v)"
| "py_get x k dflt = Inl AttributeError"

section \<open>Condition evaluator\<close>

text \<open>\<open>s.replace(c, r)\<close> for a one-character \<open>c\<close>.\<close>

definition replace :: "char \<Rightarrow> string \<Rightarrow> string \<Rightarrow> string" where
  "replace c r s = concat (map (\<lambda>x. if x = c then r else [x]) s)"

text \<open>
  \<open>_match_wildcard\<close>: the value is stringified unless it is a string, the pattern is turned
  into an anchored regular expression. A pattern that is not a string has no \<open>replace\<close>
  method; a pattern the engine rejects raises \<open>re.error\<close>, which nothing here catches
  (modelled as \<open>Raised\<close>).
\<close>

definition match_wildcard :: "ext \<Rightarrow> json \<Rightarrow> json \<Rightarrow> error + bool" where
  "match_wildcard X v pattern =
     (case pattern of
        JStr p \<Rightarrow>
          (let s = (case v of JStr s \<Rightarrow> s | _ \<Rightarrow> py_str X v);
               regex_pattern = replace (CHR ''?'') ''.'' (replace (CHR ''*'') ''.*'' p);
               regex_pattern = ''^'' @ regex_pattern @ ''$''
           in case re_match X regex_pattern s of
                None \<Rightarrow> Inl (Raised ''re.error'')
              | Some b \<Rightarrow> Inr b)
      | _ \<Rightarrow> Inl AttributeError)"

definition valid_operators :: "string list" where
  "valid_operators =
     [''$eq'', ''$ne'', ''$gt'', ''$gte'', ''$lt'', ''$lte'', ''$in'', ''$nin'',
      ''$like'', ''$regex'', ''$contains'', ''$startswith'', ''$endswith'',
      ''$between'', ''$exists'']"

definition unknown_operator :: "string \<Rightarrow> error" where
  "unknown_operator op =
     QueryError (''Unknown operator: '' @ op @ ''. Valid operators: $eq, $ne, $gt, $gte, $lt, $lte, $in, $nin, $like, $regex, $contains, $startswith, $endswith, $between, $exists'')"

text \<open>
  An ordered comparison inside \<open>try ... except TypeError: return False\<close>: the operator
  passes only when the comparison is defined and true.
\<close>

definition holds :: "error + bool \<Rightarrow> bool" where
  "holds r = (case r of Inl e \<Rightarrow> False | Inr b \<Rightarrow> b)"

text \<open>
  The body of the loop of \<open>_match_condition\<close>, for one item of the operator mapping, in
  the order of the \<open>if/elif\<close> chain: \<open>Inr (Some b)\<close> is \<open>return b\<close>, \<open>Inr None\<close> goes on to
  the next item, an \<open>Inl\<close> is a raise. \<open>$exists\<close> returns its operand from inside the loop.
\<close>

definition match_op :: "ext \<Rightarrow> json \<Rightarrow> string \<Rightarrow> json \<Rightarrow> error + bool option" where
  "match_op X v op op_value =
     (if op = ''$eq'' then
        (if \<not> py_eq v op_value then Inr (Some False) else Inr None)
      else if op = ''$ne'' then
        (if py_eq v op_value then Inr (Some False) else Inr None)
      else if op = ''$gt'' then
        (if \<not> holds (py_gt v op_value) then Inr (Some False) else Inr None)
      else if op = ''$gte'' then
        (if \<not> holds (py_ge v op_value) then Inr (Some False) else Inr None)
      else if op = ''$lt'' then
        (if \<not> holds (py_lt v op_value) then Inr (Some False) else Inr None)
      else if op = ''$lte'' then
        (if \<not> holds (py_le v op_value) then Inr (Some False) else Inr None)
      else if op = ''$in'' then
        (case py_in v op_value of
           Inl e \<Rightarrow> Inl e
         | Inr b \<Rightarrow> if \<not> b then Inr (Some False) else Inr None)
      else if op = ''$nin'' then
        (case py_in v op_value of
           Inl e \<Rightarrow> Inl e
         | Inr b \<Rightarrow> if b then Inr (Some False) else Inr None)
      else if op = ''$like'' then
        (case match_wildcard X v op_value of
           Inl e \<Rightarrow> Inl e
         | Inr b \<Rightarrow> if \<not> b then Inr (Some False) else Inr None)
      else if op = ''$regex'' then
        (case op_value of
           JStr p \<Rightarrow>
             (case re_search X p (py_str X v) of
                None \<Rightarrow> Inl (QueryError (''Invalid regex pattern '' @ p))
              | Some b \<Rightarrow> if \<not> b then Inr (Some False) else Inr None)
         | _ \<Rightarrow> Inl TypeError)
      else if op = ''$contains'' then
        (case v of
           JStr s \<Rightarrow>
             (case op_value of
                JStr p \<Rightarrow>
                  if \<not> contains (lower X s) (lower X p) then Inr (Some False)
                  else Inr None
              | _ \<Rightarrow> Inl AttributeError)
         | _ \<Rightarrow> Inr (Some False))
      else if op = ''$startswith'' then
        (case v of
           JStr s \<Rightarrow>
             (case op_value of
                JStr p \<Rightarrow>
                  if \<not> startswith (lower X s) (lower X p) then Inr (Some False)
                  else Inr None
              | _ \<Rightarrow> Inl AttributeError)
         | _ \<Rightarrow> Inr (Some False))
      else if op = ''$endswith'' then
        (case v of
           JStr s \<Rightarrow>
             (case op_value of
                JStr p \<Rightarrow>
                  if \<not> endswith (lower X s) (lower X p) then Inr (Some False)
                  else Inr None
              | _ \<Rightarrow> Inl AttributeError)
         | _ \<Rightarrow> Inr (Some False))
      else if op = ''$between'' then
        (case op_value of
           JList [min_val, max_val] \<Rightarrow>
             (if \<not> (holds (py_le min_val v) \<and> holds (py_le v max_val)) then Inr (Some False)
              else Inr None)
         | _ \<Rightarrow> Inl (QueryError ''$between requires array of exactly 2 values''))
      else if op = ''$exists'' then Inr (Some (truthy op_value))
      else Inl (unknown_operator op))"

text \<open>The loop itself; the end of the items is \<open>return True\<close>.\<close>

fun match_ops :: "ext \<Rightarrow> json \<Rightarrow> (string \<times> json) list \<Rightarrow> error + bool" where
  "match_ops X v [] = Inr True"
| "match_ops X v ((op, op_value) # rest) =
     (case match_op X v op op_value of
        Inl e \<Rightarrow> Inl e
      | Inr (Some b) \<Rightarrow> Inr b
      | Inr None \<Rightarrow> match_ops X v rest)"

text \<open>\<open>_match_condition\<close>: an operator mapping, a wildcard string, or a literal.\<close>

definition match_condition :: "ext \<Rightarrow> json \<Rightarrow> json \<Rightarrow> error + bool" where
  "match_condition X v condition =
     (case condition of
        JDict ops \<Rightarrow> match_ops X v ops
      | JStr c \<Rightarrow>
          if CHR ''*'' \<in> set c \<or> CHR ''?'' \<in> set c then match_wildcard X v condition
          else Inr (py_eq v condition)
      | _ \<Rightarrow> Inr (py_eq v condition))"

text \<open>
  The body of the loop of \<open>condition_func\<close>, the closure built by
  \<open>_build_condition_function\<close>, for one item of the filter: \<open>Inr True\<close> goes on to the next
  item, \<open>Inr False\<close> is \<open>return False\<close>. A condition mapping with a \<open>$exists\<close> key is
  settled by the presence test alone (\<open>continue\<close>); otherwise an absent field returns
  \<open>False\<close> and a present one is handed to \<open>_match_condition\<close>.
\<close>

definition check_field :: "ext \<Rightarrow> json \<Rightarrow> string \<Rightarrow> json \<Rightarrow> error + bool" where
  "check_field X row field condition =
     (case (case condition of JDict ops \<Rightarrow> map_of ops ''$exists'' | _ \<Rightarrow> None) of
        Some ex \<Rightarrow>
          (case py_in (JStr field) row of
             Inl e \<Rightarrow> Inl e
           | Inr field_exists \<Rightarrow>
               if \<not> py_eq ex (JBool field_exists) then Inr False else Inr True)
      | None \<Rightarrow>
          (case py_in (JStr field) row of
             Inl e \<Rightarrow> Inl e
           | Inr present \<Rightarrow>
               if \<not> present then Inr False
               else (case py_getitem row field of
                       Inl e \<Rightarrow> Inl e
                     | Inr v \<Rightarrow>
                         (case match_condition X v condition of
                            Inl e \<Rightarrow> Inl e
                          | Inr b \<Rightarrow> if \<not> b then Inr False else Inr True))))"

text \<open>The loop itself; the end of the items is \<open>return True\<close>.\<close>

fun condition_func :: "ext \<Rightarrow> (string \<times> json) list \<Rightarrow> json \<Rightarrow> error + bool" where
  "condition_func X [] row = Inr True"
| "condition_func X ((field, condition) # rest) row =
     (case check_field X row field condition of
        Inl e \<Rightarrow> Inl e
      | Inr b \<Rightarrow> if \<not> b then Inr False else condition_func X rest row)"

section \<open>The store and its file\<close>

text \<open>
  The file at \<open>db_path\<close> holds a JSON document; \<open>json.dump\<close> followed by \<open>json.load\<close>
  gives back the value that was written, so a file is modelled by the document it holds
  (a JSON object at top level, as every file this module writes). \<open>Garbage\<close> is a file that
  does not decode, \<open>Unreadable\<close> one that cannot be opened. Writing never fails in the
  model (no \<open>IOError\<close> from the disk), and the three paths are different files.
\<close>

datatype disk_file = Unreadable | Garbage | Document "(string \<times> json) list"

text \<open>
  The object \<open>CafeDB\<close>: \<open>self._data\<close>, \<open>self.backup\<close>, the files at \<open>db_path\<close>, at the
  \<open>.backup\<close> path and at the \<open>.tmp\<close> path, and the number of clock readings so far.
  \<open>verbose\<close> only prints and the lock only serialises threads; neither is modelled.
\<close>

record db =
  data :: "(string \<times> json) list"
  backup :: bool
  db_file :: "disk_file option"
  backup_file :: "disk_file option"
  tmp_file :: "disk_file option"
  ticks :: nat

text \<open>\<open>d[k] = v\<close>: an existing key keeps its place, a new one goes last. \<open>del d[k]\<close>.\<close>

fun dict_set :: "('k \<times> 'v) list \<Rightarrow> 'k \<Rightarrow> 'v \<Rightarrow> ('k \<times> 'v) list" where
  "dict_set [] k v = [(k, v)]"
| "dict_set ((k', v') # d) k v = (if k' = k then (k, v) # d else (k', v') # dict_set d k v)"

definition dict_del :: "(string \<times> json) list \<Rightarrow> string \<Rightarrow> (string \<times> json) list" where
  "dict_del d k = filter (\<lambda>kv. fst kv \<noteq> k) d"

text \<open>\<open>len(x)\<close>, iteration over \<open>x\<close>, \<open>x.copy()\<close>.\<close>

fun py_len :: "json \<Rightarrow> error + nat" where
  "py_len (JList xs) = Inr (length xs)"
| "py_len (JDict d) = Inr (length d)"
| "py_len (JStr s) = Inr (length s)"
| "py_len x = Inl TypeError"

fun py_iter :: "json \<Rightarrow> error + json list" where
  "py_iter (JList xs) = Inr xs"
| "py_iter (JDict d) = Inr (map JStr (keys d))"
| "py_iter (JStr s) = Inr (map (\<lambda>c. JStr [c]) s)"
| "py_iter x = Inl TypeError"

fun py_copy :: "json \<Rightarrow> error + json" where
  "py_copy (JList xs) = Inr (JList xs)"
| "py_copy (JDict d) = Inr (JDict d)"
| "py_copy x = Inl AttributeError"

text \<open>A list comprehension whose element function, or whose test, may raise.\<close>

fun map_err :: "('a \<Rightarrow> error + 'b) \<Rightarrow> 'a list \<Rightarrow> error + 'b list" where
  "map_err f [] = Inr []"
| "map_err f (x # xs) =
     (case f x of
        Inl e \<Rightarrow> Inl e
      | Inr y \<Rightarrow> (case map_err f xs of Inl e \<Rightarrow> Inl e | Inr ys \<Rightarrow> Inr (y # ys)))"

fun filter_err :: "('a \<Rightarrow> error + bool) \<Rightarrow> 'a list \<Rightarrow> error + 'a list" where
  "filter_err p [] = Inr []"
| "filter_err p (x # xs) =
     (case p x of
        Inl e \<Rightarrow> Inl e
      | Inr b \<Rightarrow>
          (case filter_err p xs of
             Inl e \<Rightarrow> Inl e
           | Inr ys \<Rightarrow> Inr (if b then x # ys else ys)))"

text \<open>\<open>sep.join(names)\<close>.\<close>

fun join :: "string \<Rightarrow> string list \<Rightarrow> string" where
  "join sep [] = []"
| "join sep [x] = x"
| "join sep (x # y # r) = x @ sep @ join sep (y # r)"

definition str_of :: "json \<Rightarrow> error + string" where
  "str_of x = (case x of JStr s \<Rightarrow> Inr s | _ \<Rightarrow> Inl TypeError)"

definition py_join :: "string \<Rightarrow> json \<Rightarrow> error + string" where
  "py_join sep x =
     (case py_iter x of
        Inl e \<Rightarrow> Inl e
      | Inr items \<Rightarrow> (case map_err str_of items of Inl e \<Rightarrow> Inl e | Inr ss \<Rightarrow> Inr (join sep ss)))"

text \<open>
  \<open>sorted\<close> on decorated items (key, item). Python's sort is stable and compares with \<open><\<close>
  only; it is modelled by a stable insertion sort that raises the \<open>TypeError\<close> of the first
  comparison it makes that is undefined. With \<open>reverse=True\<close> the list is reversed, sorted
  and reversed again, which keeps equal keys in their original order.
\<close>

fun insort_keyed :: "json \<times> 'a \<Rightarrow> (json \<times> 'a) list \<Rightarrow> error + (json \<times> 'a) list" where
  "insort_keyed x [] = Inr [x]"
| "insort_keyed x (y # ys) =
     (case py_lt (fst y) (fst x) of
        Inl e \<Rightarrow> Inl e
      | Inr b \<Rightarrow>
          if b then (case insort_keyed x ys of Inl e \<Rightarrow> Inl e | Inr r \<Rightarrow> Inr (y # r))
          else Inr (x # y # ys))"

fun sort_keyed :: "(json \<times> 'a) list \<Rightarrow> error + (json \<times> 'a) list" where
  "sort_keyed [] = Inr []"
| "sort_keyed (x # xs) =
     (case sort_keyed xs of Inl e \<Rightarrow> Inl e | Inr r \<Rightarrow> insort_keyed x r)"

definition py_sorted :: "bool \<Rightarrow> (json \<times> 'a) list \<Rightarrow> error + 'a list" where
  "py_sorted reverse kxs =
     (if reverse then
        (case sort_keyed (rev kxs) of Inl e \<Rightarrow> Inl e | Inr r \<Rightarrow> Inr (rev (map snd r)))
      else
        (case sort_keyed kxs of Inl e \<Rightarrow> Inl e | Inr r \<Rightarrow> Inr (map snd r)))"

subsection \<open>Reading and writing\<close>

text \<open>\<open>_read_db\<close>: both failures of \<open>open\<close> and \<open>json.load\<close> become a \<open>CafeDBError\<close>.\<close>

definition read_db :: "db \<Rightarrow> error + (string \<times> json) list" where
  "read_db s =
     (case db_file s of
        Some (Document d) \<Rightarrow> Inr d
      | Some Garbage \<Rightarrow> Inl (CafeDBError ''Corrupted database file'')
      | Some Unreadable \<Rightarrow> Inl (CafeDBError ''Cannot read database file'')
      | None \<Rightarrow> Inl (CafeDBError ''Cannot read database file''))"

text \<open>
  \<open>_write_db\<close>: the old file is renamed to the backup path, the store is dumped to the
  temporary file, the temporary file is renamed over \<open>db_path\<close>, and only then is
  \<open>last_modified\<close> set in the store in memory. That last assignment raises \<open>KeyError\<close> when
  the store has no \<open>_meta\<close> entry and \<open>TypeError\<close> when the entry is not a dict; the
  \<open>except IOError\<close> clause lets both through.
\<close>

definition write_db :: "ext \<Rightarrow> db \<Rightarrow> (error + unit) \<times> db" where
  "write_db X s =
     (let s1 = (if backup s \<and> db_file s \<noteq> None
                then s\<lparr>backup_file := db_file s, db_file := None\<rparr> else s);
          s2 = s1\<lparr>tmp_file := Some (Document (data s1))\<rparr>;
          s3 = s2\<lparr>db_file := tmp_file s2, tmp_file := None\<rparr>;
          t = now X (ticks s3);
          s4 = s3\<lparr>ticks := Suc (ticks s3)\<rparr>
      in case map_of (data s4) ''_meta'' of
           None \<Rightarrow> (Inl (KeyError ''_meta''), s4)
         | Some (JDict m) \<Rightarrow>
             (Inr (), s4\<lparr>data := dict_set (data s4) ''_meta''
                                  (JDict (dict_set m ''last_modified'' (JStr t)))\<rparr>)
         | Some _ \<Rightarrow> (Inl TypeError, s4))"

definition fresh_meta :: "string \<Rightarrow> json" where
  "fresh_meta t =
     JDict [(''tables'', JList []), (''created'', JStr t), (''version'', JStr ''1.0.0'')]"

text \<open>
  \<open>__init__\<close>, given the backup flag, the three files found on disk and the clock count:
  an existing file is read, a missing one is created by a first write; a store without
  \<open>_meta\<close> gets a fresh one. A failure means that no object is constructed.
\<close>

definition init ::
  "ext \<Rightarrow> bool \<Rightarrow> disk_file option \<Rightarrow> disk_file option \<Rightarrow> disk_file option \<Rightarrow> nat \<Rightarrow> error + db" where
  "init X bk f bf tf k =
     (let s0 = \<lparr>data = [], backup = bk, db_file = f, backup_file = bf, tmp_file = tf,
                ticks = k\<rparr>;
          r = (if f \<noteq> None then
                 (case read_db s0 of Inl e \<Rightarrow> Inl e | Inr d \<Rightarrow> Inr (s0\<lparr>data := d\<rparr>))
               else
                 (case write_db X (s0\<lparr>data := [(''_meta'', fresh_meta (now X k))],
                                      ticks := Suc k\<rparr>) of
                    (Inl e, s1) \<Rightarrow> Inl e
                  | (Inr u, s1) \<Rightarrow> Inr s1))
      in case r of
           Inl e \<Rightarrow> Inl e
         | Inr s \<Rightarrow>
             if ''_meta'' \<notin> set (keys (data s))
             then Inr (s\<lparr>data := dict_set (data s) ''_meta'' (fresh_meta (now X (ticks s))),
                         ticks := Suc (ticks s)\<rparr>)
             else Inr s)"

section \<open>Tables\<close>

text \<open>\<open>exists_table\<close> and \<open>list_tables\<close>.\<close>

definition exists_table :: "db \<Rightarrow> string \<Rightarrow> bool" where
  "exists_table s table_name = (table_name \<in> set (keys (data s)))"

text \<open>\<open>self._data["_meta"]["tables"]\<close>.\<close>

definition meta_tables :: "(string \<times> json) list \<Rightarrow> error + json" where
  "meta_tables d =
     (case py_getitem (JDict d) ''_meta'' of
        Inl e \<Rightarrow> Inl e
      | Inr m \<Rightarrow> py_getitem m ''tables'')"

definition list_tables :: "db \<Rightarrow> error + json" where
  "list_tables s = (case meta_tables (data s) of Inl e \<Rightarrow> Inl e | Inr t \<Rightarrow> py_copy t)"

text \<open>\<open>self._data["_meta"]["tables"] = t\<close>, once the lookup of the list has succeeded.\<close>

definition set_tables :: "(string \<times> json) list \<Rightarrow> json \<Rightarrow> (string \<times> json) list" where
  "set_tables d t =
     (case map_of d ''_meta'' of
        Some (JDict m) \<Rightarrow> dict_set d ''_meta'' (JDict (dict_set m ''tables'' t))
      | _ \<Rightarrow> d)"

text \<open>
  The three \<open>TableNotFoundError\<close> texts: \<open>select\<close> and \<open>drop_table\<close> append the available
  tables (\<open>', '.join(self.list_tables()) or 'none'\<close>, which is evaluated first and may
  itself raise); \<open>update\<close>, \<open>delete\<close>, \<open>stats\<close> and \<open>clear_table\<close> do not; \<open>insert\<close> and
  \<open>insert_many\<close> point to \<open>create_table\<close>.
\<close>

definition quoted :: "string \<Rightarrow> string" where
  "quoted x = [CHR 0x27] @ x @ [CHR 0x27]"

definition does_not_exist :: "string \<Rightarrow> string" where
  "does_not_exist table_name = ''Table '' @ quoted table_name @ '' does not exist''"

definition available_tables :: "string \<Rightarrow> string" where
  "available_tables j = ''. Available tables: '' @ (if j = [] then ''none'' else j)"

definition not_found_available :: "db \<Rightarrow> string \<Rightarrow> error" where
  "not_found_available s table_name =
     (case list_tables s of
        Inl e \<Rightarrow> e
      | Inr t \<Rightarrow>
          (case py_join '', '' t of
             Inl e \<Rightarrow> e
           | Inr j \<Rightarrow> TableNotFoundError (does_not_exist table_name @ available_tables j)))"

definition not_found_plain :: "string \<Rightarrow> error" where
  "not_found_plain table_name = TableNotFoundError (does_not_exist table_name)"

definition not_found_create :: "string \<Rightarrow> error" where
  "not_found_create table_name =
     TableNotFoundError
       (does_not_exist table_name @ ''. Use create_table('' @ quoted table_name @
        '') first.'')"

text \<open>
  \<open>create_table\<close>: the duplicate check, the underscore check, then the new entry, the
  append to the table list, the sort of the list, and the write.
\<close>

definition create_table :: "ext \<Rightarrow> db \<Rightarrow> string \<Rightarrow> (error + unit) \<times> db" where
  "create_table X s table_name =
     (if table_name \<in> set (keys (data s)) then
        (Inl (TableExistsError (''Table '' @ quoted table_name @
           '' already exists. Use drop_table() first or choose a different name.'')), s)
      else if startswith table_name ''_'' then
        (Inl (QueryError
           ''Table names cannot start with underscore (reserved for internal use)''), s)
      else
        (let s1 = s\<lparr>data := dict_set (data s) table_name (JList [])\<rparr>
         in case meta_tables (data s1) of
              Inl e \<Rightarrow> (Inl e, s1)
            | Inr (JList ts) \<Rightarrow>
                (let appended = ts @ [JStr table_name];
                     s2 = s1\<lparr>data := set_tables (data s1) (JList appended)\<rparr>
                 in case py_sorted False (map (\<lambda>x. (x, x)) appended) of
                      Inl e \<Rightarrow> (Inl e, s2)
                    | Inr sorted_ts \<Rightarrow>
                        write_db X (s2\<lparr>data := set_tables (data s2) (JList sorted_ts)\<rparr>))
            | Inr _ \<Rightarrow> (Inl AttributeError, s1)))"

text \<open>\<open>ts.remove(x)\<close>: the first element equal to \<open>x\<close> goes; \<open>None\<close> is \<open>ValueError\<close>.\<close>

fun py_remove :: "json \<Rightarrow> json list \<Rightarrow> json list option" where
  "py_remove x [] = None"
| "py_remove x (y # ys) =
     (if py_eq y x then Some ys
      else (case py_remove x ys of None \<Rightarrow> None | Some r \<Rightarrow> Some (y # r)))"

text \<open>
  \<open>drop_table\<close>: the test is membership in \<open>self._data\<close>; then the row count, the deletion of
  the entry, the removal of the name from the table list, and the write.
\<close>

definition drop_table :: "ext \<Rightarrow> db \<Rightarrow> string \<Rightarrow> (error + unit) \<times> db" where
  "drop_table X s table_name =
     (case map_of (data s) table_name of
        None \<Rightarrow> (Inl (not_found_available s table_name), s)
      | Some entry \<Rightarrow>
          (case py_len entry of
             Inl e \<Rightarrow> (Inl e, s)
           | Inr row_count \<Rightarrow>
               (let s1 = s\<lparr>data := dict_del (data s) table_name\<rparr>
                in case meta_tables (data s1) of
                     Inl e \<Rightarrow> (Inl e, s1)
                   | Inr (JList ts) \<Rightarrow>
                       (case py_remove (JStr table_name) ts of
                          None \<Rightarrow> (Inl ValueError, s1)
                        | Some ts' \<Rightarrow> write_db X (s1\<lparr>data := set_tables (data s1) (JList ts')\<rparr>))
                   | Inr _ \<Rightarrow> (Inl AttributeError, s1))))"

section \<open>Mutation engine\<close>

text \<open>\<open>{**row, **updater}\<close>.\<close>

definition dict_merge :: "(string \<times> json) list \<Rightarrow> (string \<times> json) list \<Rightarrow> (string \<times> json) list" where
  "dict_merge row extra = fold (\<lambda>kv acc. dict_set acc (fst kv) (snd kv)) extra row"

text \<open>
  \<open>insert\<close> (here \<open>insert_row\<close>): the row must be a dict; the entry of the table must have \<open>append\<close>, that is,
  be a list.
\<close>

definition insert_row :: "ext \<Rightarrow> db \<Rightarrow> string \<Rightarrow> json \<Rightarrow> (error + unit) \<times> db" where
  "insert_row X s table_name row =
     (case map_of (data s) table_name of
        None \<Rightarrow> (Inl (not_found_create table_name), s)
      | Some entry \<Rightarrow>
          (case row of
             JDict r \<Rightarrow>
               (let row_with_meta = JDict (dict_set r ''_inserted_at'' (JStr (now X (ticks s))));
                    s1 = s\<lparr>ticks := Suc (ticks s)\<rparr>
                in case entry of
                     JList rows \<Rightarrow>
                       write_db X
                         (s1\<lparr>data := dict_set (data s1) table_name (JList (rows @ [row_with_meta]))\<rparr>)
                   | _ \<Rightarrow> (Inl AttributeError, s1))
           | _ \<Rightarrow> (Inl (QueryError ''Row must be a dictionary''), s)))"

text \<open>
  \<open>insert_many\<close>: one timestamp for the batch; a row that is not a mapping makes the
  comprehension raise \<open>TypeError\<close>.
\<close>

definition with_inserted_at :: "string \<Rightarrow> json \<Rightarrow> error + json" where
  "with_inserted_at t row =
     (case row of
        JDict r \<Rightarrow> Inr (JDict (dict_set r ''_inserted_at'' (JStr t)))
      | _ \<Rightarrow> Inl TypeError)"

definition insert_many :: "ext \<Rightarrow> db \<Rightarrow> string \<Rightarrow> json \<Rightarrow> (error + nat) \<times> db" where
  "insert_many X s table_name rows =
     (case map_of (data s) table_name of
        None \<Rightarrow> (Inl (not_found_create table_name), s)
      | Some entry \<Rightarrow>
          (case rows of
             JList rs \<Rightarrow>
               (let s1 = s\<lparr>ticks := Suc (ticks s)\<rparr>
                in case map_err (with_inserted_at (now X (ticks s))) rs of
                     Inl e \<Rightarrow> (Inl e, s1)
                   | Inr rows_with_meta \<Rightarrow>
                       (case entry of
                          JList old \<Rightarrow>
                            (case write_db X
                                    (s1\<lparr>data := dict_set (data s1) table_name
                                                   (JList (old @ rows_with_meta))\<rparr>) of
                               (Inl e, s2) \<Rightarrow> (Inl e, s2)
                             | (Inr u, s2) \<Rightarrow> (Inr (length rs), s2))
                        | _ \<Rightarrow> (Inl AttributeError, s1)))
           | _ \<Rightarrow> (Inl (QueryError ''Rows must be a list''), s)))"

text \<open>
  A filter argument is a dict, a callable (which may raise), or something else; an updater
  likewise. \<open>callable\<close> is tested before \<open>isinstance(..., dict)\<close>.
\<close>

datatype filt = FDict "(string \<times> json) list" | FCall "json \<Rightarrow> error + bool" | FOther

datatype updater = UDict "(string \<times> json) list" | UCall "json \<Rightarrow> error + json" | UOther

definition is_other :: "filt \<Rightarrow> bool" where
  "is_other f = (case f of FOther \<Rightarrow> True | _ \<Rightarrow> False)"

definition is_other_updater :: "updater \<Rightarrow> bool" where
  "is_other_updater u = (case u of UOther \<Rightarrow> True | _ \<Rightarrow> False)"

definition apply_filter :: "ext \<Rightarrow> filt \<Rightarrow> json \<Rightarrow> error + bool" where
  "apply_filter X f row =
     (case f of
        FCall p \<Rightarrow> p row
      | FDict d \<Rightarrow> condition_func X d row
      | FOther \<Rightarrow> Inl (QueryError ''Filters must be dict or callable''))"

text \<open>
  \<open>update_func\<close> at clock count \<open>k\<close>: the callable itself, or the merge of the updater into
  the row followed by \<open>_updated_at\<close>. The result carries the new clock count.
\<close>

definition update_func :: "ext \<Rightarrow> updater \<Rightarrow> nat \<Rightarrow> json \<Rightarrow> (error + json) \<times> nat" where
  "update_func X u k row =
     (case u of
        UCall f \<Rightarrow> (f row, k)
      | UDict d \<Rightarrow>
          (case row of
             JDict r \<Rightarrow>
               (Inr (JDict (dict_set (dict_merge r d) ''_updated_at'' (JStr (now X k)))), Suc k)
           | _ \<Rightarrow> (Inl TypeError, k))
      | UOther \<Rightarrow> (Inl (QueryError ''Updater must be dict or callable''), k))"

text \<open>
  The loop \<open>for i, row in enumerate(rows)\<close> of \<open>update\<close>. \<open>assign\<close> is \<open>None\<close> when the entry
  is a list, so that \<open>rows[i] = ...\<close> succeeds, and otherwise the error of that assignment.
  The result is the raised error if any, the rows as they stand when the loop ends or
  raises, the number of rows updated, and the clock count.
\<close>

fun update_rows ::
  "ext \<Rightarrow> filt \<Rightarrow> updater \<Rightarrow> error option \<Rightarrow> nat \<Rightarrow> json list
     \<Rightarrow> error option \<times> json list \<times> nat \<times> nat" where
  "update_rows X f u assign k [] = (None, [], 0, k)"
| "update_rows X f u assign k (row # rest) =
     (case apply_filter X f row of
        Inl e \<Rightarrow> (Some e, row # rest, 0, k)
      | Inr b \<Rightarrow>
          if b then
            (case update_func X u k row of
               (Inl e, k') \<Rightarrow> (Some e, row # rest, 0, k')
             | (Inr new, k') \<Rightarrow>
                 (case assign of
                    Some e \<Rightarrow> (Some e, row # rest, 0, k')
                  | None \<Rightarrow>
                      (case update_rows X f u assign k' rest of
                         (err, rest', n, k'') \<Rightarrow> (err, new # rest', Suc n, k''))))
          else
            (case update_rows X f u assign k rest of
               (err, rest', n, k'') \<Rightarrow> (err, row # rest', n, k'')))"

text \<open>
  \<open>update\<close>. An entry that is not a list is iterated as Python iterates it, and assigning
  into it by position fails: a string rejects it with \<open>TypeError\<close>; a dict takes the integer
  as a new key and its iteration then stops with \<open>RuntimeError\<close> (that integer key is
  outside JSON and is not kept in the model).
\<close>

definition update :: "ext \<Rightarrow> db \<Rightarrow> string \<Rightarrow> filt \<Rightarrow> updater \<Rightarrow> (error + nat) \<times> db" where
  "update X s table_name filters u =
     (case map_of (data s) table_name of
        None \<Rightarrow> (Inl (not_found_plain table_name), s)
      | Some entry \<Rightarrow>
          if is_other filters then (Inl (QueryError ''Filters must be dict or callable''), s)
          else if is_other_updater u then (Inl (QueryError ''Updater must be dict or callable''), s)
          else
            (case py_iter entry of
               Inl e \<Rightarrow> (Inl e, s)
             | Inr rows \<Rightarrow>
                 (let assign = (case entry of
                                  JList xs \<Rightarrow> None
                                | JDict d \<Rightarrow> Some (Raised ''RuntimeError'')
                                | _ \<Rightarrow> Some TypeError)
                  in case update_rows X filters u assign (ticks s) rows of
                       (err, rows', updated_count, k) \<Rightarrow>
                         (let s1 = s\<lparr>data := (case entry of
                                                JList xs \<Rightarrow> dict_set (data s) table_name (JList rows')
                                              | _ \<Rightarrow> data s),
                                      ticks := k\<rparr>
                          in case err of
                               Some e \<Rightarrow> (Inl e, s1)
                             | None \<Rightarrow>
                                 if updated_count > 0 then
                                   (case write_db X s1 of
                                      (Inl e, s2) \<Rightarrow> (Inl e, s2)
                                    | (Inr w, s2) \<Rightarrow> (Inr updated_count, s2))
                                 else (Inr updated_count, s1)))))"

definition not_err :: "error + bool \<Rightarrow> error + bool" where
  "not_err r = (case r of Inl e \<Rightarrow> Inl e | Inr b \<Rightarrow> Inr (\<not> b))"

text \<open>
  \<open>delete\<close>: the length is taken before the filter is looked at; the rows that do not match
  are kept, as a new list.
\<close>

definition delete :: "ext \<Rightarrow> db \<Rightarrow> string \<Rightarrow> filt \<Rightarrow> (error + nat) \<times> db" where
  "delete X s table_name filters =
     (case map_of (data s) table_name of
        None \<Rightarrow> (Inl (not_found_plain table_name), s)
      | Some entry \<Rightarrow>
          (case py_len entry of
             Inl e \<Rightarrow> (Inl e, s)
           | Inr original_len \<Rightarrow>
               if is_other filters then (Inl (QueryError ''Filters must be dict or callable''), s)
               else
                 (case py_iter entry of
                    Inl e \<Rightarrow> (Inl e, s)
                  | Inr rows \<Rightarrow>
                      (case filter_err (\<lambda>r. not_err (apply_filter X filters r)) rows of
                         Inl e \<Rightarrow> (Inl e, s)
                       | Inr kept \<Rightarrow>
                           (let s1 = s\<lparr>data := dict_set (data s) table_name (JList kept)\<rparr>;
                                deleted_count = original_len - length kept
                            in if deleted_count > 0 then
                                 (case write_db X s1 of
                                    (Inl e, s2) \<Rightarrow> (Inl e, s2)
                                  | (Inr w, s2) \<Rightarrow> (Inr deleted_count, s2))
                               else (Inr deleted_count, s1))))))"

text \<open>\<open>clear_table\<close>.\<close>

definition clear_table :: "ext \<Rightarrow> db \<Rightarrow> string \<Rightarrow> (error + nat) \<times> db" where
  "clear_table X s table_name =
     (case map_of (data s) table_name of
        None \<Rightarrow> (Inl (not_found_plain table_name), s)
      | Some entry \<Rightarrow>
          (case py_len entry of
             Inl e \<Rightarrow> (Inl e, s)
           | Inr row_count \<Rightarrow>
               (case write_db X (s\<lparr>data := dict_set (data s) table_name (JList [])\<rparr>) of
                  (Inl e, s1) \<Rightarrow> (Inl e, s1)
                | (Inr w, s1) \<Rightarrow> (Inr row_count, s1))))"

section \<open>Query pipeline\<close>

text \<open>
  The four stages of \<open>select\<close>, in the order of the source. \<open>rows\<close> starts as the entry of
  the table, whatever it is; each stage that runs makes a new list of it.
\<close>

text \<open>Filter: \<open>[r for r in rows if f(r)]\<close>, unless \<open>filters is None\<close>.\<close>

definition filter_stage :: "ext \<Rightarrow> filt option \<Rightarrow> json \<Rightarrow> error + json" where
  "filter_stage X filters rows =
     (case filters of
        None \<Rightarrow> Inr rows
      | Some FOther \<Rightarrow> Inl (QueryError ''Filters must be dict, callable, or None'')
      | Some f \<Rightarrow>
          (case py_iter rows of
             Inl e \<Rightarrow> Inl e
           | Inr items \<Rightarrow>
               (case filter_err (apply_filter X f) items of
                  Inl e \<Rightarrow> Inl e
                | Inr kept \<Rightarrow> Inr (JList kept))))"

text \<open>\<open>rows[0].keys()\<close>, evaluated when \<open>rows\<close> is true.\<close>

definition first_row_keys :: "json \<Rightarrow> error + unit" where
  "first_row_keys rows =
     (case rows of
        JList xs \<Rightarrow>
          (case xs of
             [] \<Rightarrow> Inr ()
           | x # rest \<Rightarrow> (case x of JDict d \<Rightarrow> Inr () | _ \<Rightarrow> Inl AttributeError))
      | JStr s \<Rightarrow> Inl AttributeError
      | JDict d \<Rightarrow> Inl (KeyError ''0'')
      | _ \<Rightarrow> Inl TypeError)"

text \<open>
  Sort: skipped when \<open>order_by\<close> is \<open>None\<close> or the empty string. The key of a row is
  \<open>x.get(order_by, '')\<close>; when \<open>sorted\<close> raises \<open>TypeError\<close> the rows are sorted again by
  \<open>str\<close> of that key.
\<close>

definition sort_stage :: "ext \<Rightarrow> string option \<Rightarrow> bool \<Rightarrow> json \<Rightarrow> error + json" where
  "sort_stage X order_by reverse rows =
     (case order_by of
        None \<Rightarrow> Inr rows
      | Some ob \<Rightarrow>
          if ob = [] then Inr rows
          else
            (case (if truthy rows then first_row_keys rows else Inr ()) of
               Inl e \<Rightarrow> Inl e
             | Inr u \<Rightarrow>
                 (case py_iter rows of
                    Inl e \<Rightarrow> Inl e
                  | Inr items \<Rightarrow>
                      (case map_err (\<lambda>x. py_get x ob (JStr [])) items of
                         Inl e \<Rightarrow> Inl e
                       | Inr ks \<Rightarrow>
                           (case py_sorted reverse (zip ks items) of
                              Inr r \<Rightarrow> Inr (JList r)
                            | Inl e \<Rightarrow>
                                if e = TypeError then
                                  (case py_sorted reverse
                                          (zip (map (\<lambda>k. JStr (py_str X k)) ks) items) of
                                     Inl e' \<Rightarrow> Inl e'
                                   | Inr r \<Rightarrow> Inr (JList r))
                                else Inl e)))))"

text \<open>
  Pagination: \<open>rows[offset:]\<close> when \<open>offset > 0\<close>, then \<open>rows[:limit]\<close> when a limit is given.
  A negative limit counts from the end, as Python slices do.
\<close>

definition slice_from :: "ext \<Rightarrow> json \<Rightarrow> int \<Rightarrow> error + json" where
  "slice_from X rows offset =
     (case rows of
        JList xs \<Rightarrow> Inr (JList (drop (nat offset) xs))
      | JStr s \<Rightarrow> Inr (JStr (drop (nat offset) s))
      | JDict d \<Rightarrow> Inl (dict_slice X)
      | _ \<Rightarrow> Inl TypeError)"

definition slice_stop :: "nat \<Rightarrow> int \<Rightarrow> nat" where
  "slice_stop len limit = (if limit \<ge> 0 then nat limit else nat (int len + limit))"

definition slice_to :: "ext \<Rightarrow> json \<Rightarrow> int \<Rightarrow> error + json" where
  "slice_to X rows limit =
     (case rows of
        JList xs \<Rightarrow> Inr (JList (take (slice_stop (length xs) limit) xs))
      | JStr s \<Rightarrow> Inr (JStr (take (slice_stop (length s) limit) s))
      | JDict d \<Rightarrow> Inl (dict_slice X)
      | _ \<Rightarrow> Inl TypeError)"

definition page_stage :: "ext \<Rightarrow> int \<Rightarrow> int option \<Rightarrow> json \<Rightarrow> error + json" where
  "page_stage X offset limit rows =
     (case (if offset > 0 then slice_from X rows offset else Inr rows) of
        Inl e \<Rightarrow> Inl e
      | Inr rows1 \<Rightarrow>
          (case limit of None \<Rightarrow> Inr rows1 | Some l \<Rightarrow> slice_to X rows1 l))"

text \<open>
  Projection: \<open>{k: row.get(k) for k in fields}\<close> for each row, or \<open>row.copy()\<close> when no
  field list is given. At this level a copy of a value is the value; what the copy shares
  with the stored row is the subject of the last section.
\<close>

datatype projection = PList "string list" | POther

definition project_row :: "string list \<Rightarrow> json \<Rightarrow> error + json" where
  "project_row field_names row =
     (if field_names = [] then Inr (JDict [])
      else
        (case row of
           JDict d \<Rightarrow>
             Inr (JDict (fold (\<lambda>k acc. dict_set acc k
                                  (case map_of d k of None \<Rightarrow> JNull | Some v \<Rightarrow> v))
                           field_names []))
         | _ \<Rightarrow> Inl AttributeError))"

definition project_stage :: "projection option \<Rightarrow> json \<Rightarrow> error + json list" where
  "project_stage field_names rows =
     (case field_names of
        Some POther \<Rightarrow> Inl (QueryError ''Fields must be a list'')
      | Some (PList ks) \<Rightarrow>
          (case py_iter rows of Inl e \<Rightarrow> Inl e | Inr items \<Rightarrow> map_err (project_row ks) items)
      | None \<Rightarrow>
          (case py_iter rows of Inl e \<Rightarrow> Inl e | Inr items \<Rightarrow> map_err py_copy items))"

text \<open>\<open>select\<close>. It reads the store and never assigns to it.\<close>

definition select ::
  "ext \<Rightarrow> db \<Rightarrow> string \<Rightarrow> filt option \<Rightarrow> projection option \<Rightarrow> int option \<Rightarrow> int
     \<Rightarrow> string option \<Rightarrow> bool \<Rightarrow> (error + json list) \<times> db" where
  "select X s table_name filters field_names limit offset order_by reverse =
     (case map_of (data s) table_name of
        None \<Rightarrow> (Inl (not_found_available s table_name), s)
      | Some rows \<Rightarrow>
          (case filter_stage X filters rows of
             Inl e \<Rightarrow> (Inl e, s)
           | Inr rows1 \<Rightarrow>
               (case sort_stage X order_by reverse rows1 of
                  Inl e \<Rightarrow> (Inl e, s)
                | Inr rows2 \<Rightarrow>
                    (case page_stage X offset limit rows2 of
                       Inl e \<Rightarrow> (Inl e, s)
                     | Inr rows3 \<Rightarrow>
                         (case project_stage field_names rows3 of
                            Inl e \<Rightarrow> (Inl e, s)
                          | Inr out \<Rightarrow> (Inr out, s))))))"

text \<open>\<open>count\<close> (here \<open>count_rows\<close>).\<close>

definition count_rows :: "ext \<Rightarrow> db \<Rightarrow> string \<Rightarrow> filt option \<Rightarrow> (error + nat) \<times> db" where
  "count_rows X s table_name filters =
     (case select X s table_name filters None None 0 None False of
        (Inl e, s1) \<Rightarrow> (Inl e, s1)
      | (Inr rows, s1) \<Rightarrow> (Inr (length rows), s1))"

text \<open>
  \<open>stats\<close>: the guard, the row count and the three counters of each field. The
  percentages, averages and sizes are floating point or depend on the serialised text and
  are left out; the fields are listed in the order of their first appearance (Python
  iterates a \<open>set\<close> in an order of its own).
\<close>

record field_stats =
  present_count :: nat
  unique_count :: nat
  null_count :: nat

definition row_keys :: "json \<Rightarrow> error + string list" where
  "row_keys row = (case row of JDict d \<Rightarrow> Inr (keys d) | _ \<Rightarrow> Inl AttributeError)"

definition field_values :: "string \<Rightarrow> json list \<Rightarrow> json list" where
  "field_values field rows =
     concat (map (\<lambda>row. case row of
                           JDict d \<Rightarrow> (case map_of d field of None \<Rightarrow> [] | Some v \<Rightarrow> [v])
                         | _ \<Rightarrow> []) rows)"

definition stats_of_field :: "ext \<Rightarrow> json list \<Rightarrow> string \<Rightarrow> string \<times> field_stats" where
  "stats_of_field X rows field =
     (let vals = field_values field rows;
          non_null = filter (\<lambda>v. v \<noteq> JNull) vals
      in (field, \<lparr>present_count = length vals,
                  unique_count = length (remdups (map (py_str X) non_null)),
                  null_count = length vals - length non_null\<rparr>))"

definition stats ::
  "ext \<Rightarrow> db \<Rightarrow> string \<Rightarrow> (error + nat \<times> (string \<times> field_stats) list) \<times> db" where
  "stats X s table_name =
     (case map_of (data s) table_name of
        None \<Rightarrow> (Inl (not_found_plain table_name), s)
      | Some rows \<Rightarrow>
          (case py_len rows of
             Inl e \<Rightarrow> (Inl e, s)
           | Inr total_rows \<Rightarrow>
               if total_rows = 0 then (Inr (0, []), s)
               else
                 (case py_iter rows of
                    Inl e \<Rightarrow> (Inl e, s)
                  | Inr items \<Rightarrow>
                      (case map_err row_keys items of
                         Inl e \<Rightarrow> (Inl e, s)
                       | Inr ks \<Rightarrow>
                           (Inr (total_rows,
                                 map (stats_of_field X items) (remdups (concat ks))), s)))))"

section \<open>Transaction coordinator\<close>

text \<open>
  \<open>transaction\<close>: the body is the code of the \<open>with\<close> block, a function of the store that
  returns a value or raises, leaving the store as it was at that moment. The snapshot
  \<open>json.loads(json.dumps(self._data))\<close> is a copy of the value of the store. An exception of
  the body, or of the final write, puts the snapshot back and is raised again.
  (\<open>except Exception\<close> does not catch \<open>KeyboardInterrupt\<close> and \<open>SystemExit\<close>, which are not
  modelled.)
\<close>

definition transaction ::
  "ext \<Rightarrow> (db \<Rightarrow> (error + 'a) \<times> db) \<Rightarrow> db \<Rightarrow> (error + 'a) \<times> db" where
  "transaction X body s =
     (let backup_data = data s
      in case body s of
           (Inl e, s1) \<Rightarrow> (Inl e, s1\<lparr>data := backup_data\<rparr>)
         | (Inr r, s1) \<Rightarrow>
             (case write_db X s1 of
                (Inl e, s2) \<Rightarrow> (Inl e, s2\<lparr>data := backup_data\<rparr>)
              | (Inr w, s2) \<Rightarrow> (Inr r, s2)))"

text \<open>
  Bodies made of the mutating operations, one call after the other, and of \<open>raise\<close>: the
  first exception ends the body.
\<close>

datatype command =
    CreateTable string
  | DropTable string
  | Insert string json
  | InsertMany string json
  | Update string filt updater
  | Delete string filt
  | ClearTable string
  | Raise error

definition forget :: "(error + 'a) \<times> db \<Rightarrow> (error + unit) \<times> db" where
  "forget r = (case r of (Inl e, s) \<Rightarrow> (Inl e, s) | (Inr x, s) \<Rightarrow> (Inr (), s))"

fun exec :: "ext \<Rightarrow> command \<Rightarrow> db \<Rightarrow> (error + unit) \<times> db" where
  "exec X (CreateTable n) s = create_table X s n"
| "exec X (DropTable n) s = drop_table X s n"
| "exec X (Insert n row) s = insert_row X s n row"
| "exec X (InsertMany n rows) s = forget (insert_many X s n rows)"
| "exec X (Update n f u) s = forget (update X s n f u)"
| "exec X (Delete n f) s = forget (delete X s n f)"
| "exec X (ClearTable n) s = forget (clear_table X s n)"
| "exec X (Raise e) s = (Inl e, s)"

fun run :: "ext \<Rightarrow> command list \<Rightarrow> db \<Rightarrow> (error + unit) \<times> db" where
  "run X [] s = (Inr (), s)"
| "run X (c # cs) s =
     (case exec X c s of
        (Inl e, s1) \<Rightarrow> (Inl e, s1)
      | (Inr u, s1) \<Rightarrow> run X cs s1)"

text \<open>The number of rows of each entry of the store, by name.\<close>

definition row_counts :: "db \<Rightarrow> (string \<times> (error + nat)) list" where
  "row_counts s = map (\<lambda>kv. (fst kv, py_len (snd kv))) (data s)"

section \<open>Opening a path again, and the invariant of the store\<close>

text \<open>
  A second \<open>CafeDB\<close> object on the path of \<open>s\<close>: \<open>__init__\<close> on the files as \<open>s\<close> left them.
\<close>

definition reopen :: "ext \<Rightarrow> db \<Rightarrow> error + db" where
  "reopen X s = init X (backup s) (db_file s) (backup_file s) (tmp_file s) (ticks s)"

text \<open>
  The invariant of the data model: the store has a \<open>_meta\<close> dict whose \<open>tables\<close> list names,
  once each, exactly the other entries of the store, and none of these names starts with
  an underscore.
\<close>

definition table_names :: "(string \<times> json) list \<Rightarrow> string list" where
  "table_names d = filter (\<lambda>k. k \<noteq> ''_meta'') (keys d)"

definition store_inv :: "db \<Rightarrow> bool" where
  "store_inv s =
     (case map_of (data s) ''_meta'' of
        Some (JDict m) \<Rightarrow>
          (case map_of m ''tables'' of
             Some (JList ts) \<Rightarrow>
               distinct (keys (data s)) \<and> distinct ts
               \<and> set ts = set (map JStr (table_names (data s)))
               \<and> list_all (\<lambda>n. \<not> startswith n ''_'') (table_names (data s))
           | _ \<Rightarrow> False)
      | _ \<Rightarrow> False)"

text \<open>The table that a command of a body is given; \<open>raise\<close> is given none.\<close>

fun table_of :: "command \<Rightarrow> string option" where
  "table_of (CreateTable n) = Some n"
| "table_of (DropTable n) = Some n"
| "table_of (Insert n row) = Some n"
| "table_of (InsertMany n rows) = Some n"
| "table_of (Update n f u) = Some n"
| "table_of (Delete n f) = Some n"
| "table_of (ClearTable n) = Some n"
| "table_of (Raise e) = None"

section \<open>Copies and sharing\<close>

text \<open>
  What a copy shares with its original cannot be seen on values, so the last statement of
  \<open>select\<close>, \<open>rows = [row.copy() for row in rows]\<close>, is also modelled on Python's objects:
  lists and dicts are objects on a heap, and a slot of a list or a dict holds an atom or
  a reference to an object. The object at address \<open>a\<close> is the \<open>a\<close>-th of the heap; a new
  object goes at the end.
\<close>

type_synonym addr = nat

datatype pval = PNull | PBool bool | PInt int | PStr string | Ref addr

datatype pobj = DictObj "(string \<times> pval) list" | ListObj "pval list"

type_synonym heap = "pobj list"

definition obj_at :: "heap \<Rightarrow> addr \<Rightarrow> pobj option" where
  "obj_at h a = (if a < length h then Some (h ! a) else None)"

text \<open>
  The JSON value that a slot stands for, followed through at most \<open>n\<close> references
  (\<open>None\<close> beyond that depth, or at an address that holds no object).
\<close>

fun value_of :: "nat \<Rightarrow> heap \<Rightarrow> pval \<Rightarrow> json option"
  and values_of :: "nat \<Rightarrow> heap \<Rightarrow> pval list \<Rightarrow> json list option"
  and items_of :: "nat \<Rightarrow> heap \<Rightarrow> (string \<times> pval) list \<Rightarrow> (string \<times> json) list option" where
  "value_of n h PNull = Some JNull"
| "value_of n h (PBool b) = Some (JBool b)"
| "value_of n h (PInt i) = Some (JInt i)"
| "value_of n h (PStr s) = Some (JStr s)"
| "value_of 0 h (Ref a) = None"
| "value_of (Suc n) h (Ref a) =
     (case obj_at h a of
        None \<Rightarrow> None
      | Some (DictObj d) \<Rightarrow> map_option JDict (items_of n h d)
      | Some (ListObj xs) \<Rightarrow> map_option JList (values_of n h xs))"
| "values_of n h [] = Some []"
| "values_of n h (v # vs) =
     (case value_of n h v of
        None \<Rightarrow> None
      | Some j \<Rightarrow> map_option ((#) j) (values_of n h vs))"
| "items_of n h [] = Some []"
| "items_of n h (kv # d) =
     (case value_of n h (snd kv) of
        None \<Rightarrow> None
      | Some j \<Rightarrow> map_option ((#) (fst kv, j)) (items_of n h d))"








section \<open>The order of a sorted result\<close>

text \<open>
  The sort key of a row, \<open>x.get(order_by, '')\<close> (of a row that is a dict), and what it
  means for rows to be in ascending order of a key under Python's \<open><=\<close>.
\<close>

definition row_key :: "string \<Rightarrow> json \<Rightarrow> json" where
  "row_key order_by x = (case py_get x order_by (JStr []) of Inr k \<Rightarrow> k | Inl e \<Rightarrow> JNull)"

definition is_number :: "json \<Rightarrow> bool" where
  "is_number x = (case x of JInt i \<Rightarrow> True | JBool b \<Rightarrow> True | _ \<Rightarrow> False)"

definition is_string :: "json \<Rightarrow> bool" where
  "is_string x = (case x of JStr s \<Rightarrow> True | _ \<Rightarrow> False)"

definition ascending_by :: "(json \<Rightarrow> json) \<Rightarrow> json list \<Rightarrow> bool" where
  "ascending_by key xs = sorted_wrt (\<lambda>x y. holds (py_le (key x) (key y))) xs"

section \<open>An environment for the worked examples\<close>

text \<open>
  One environment, to run the definitions on concrete inputs: an engine that rejects every
  pattern, \<open>str\<close> on strings only, no case folding, and a clock that reads
  \<open>t\<close>, \<open>tI\<close>, \<open>tII\<close>, ... The timestamps of the examples are those of this clock,
  and where an example sorts by \<open>str\<close> of a key, every key that is not a string has the
  text \<open>''\<close>.
\<close>

definition plain_ext :: ext where
  "plain_ext =
     \<lparr>re_match = (\<lambda>p s. None), re_search = (\<lambda>p s. None),
      py_str = (\<lambda>v. case v of JStr s \<Rightarrow> s | _ \<Rightarrow> []), lower = (\<lambda>s. s),
      now = (\<lambda>k. CHR ''t'' # replicate k (CHR ''I'')), dict_slice = TypeError\<rparr>"

text \<open>
  The store of the scenarios: one table \<open>users\<close> with Alice and Bob, no file written yet.
\<close>

definition users_db :: db where
  "users_db =
     \<lparr>data =
        [(''_meta'', JDict [(''tables'', JList [JStr ''users'']), (''created'', JStr ''t''),
                            (''version'', JStr ''1.0.0'')]),
         (''users'', JList [JDict [(''name'', JStr ''Alice''), (''age'', JInt 28)],
                            JDict [(''name'', JStr ''Bob''), (''age'', JInt 34)]])],
      backup = True, db_file = None, backup_file = None, tmp_file = None, ticks = 1\<rparr>"

text \<open>A body that inserts a row, deletes another, creates a table, and then raises.\<close>

definition failing_body :: "command list" where
  "failing_body =
     [Insert ''users'' (JDict [(''name'', JStr ''Eve'')]),
      Delete ''users'' (FDict [(''name'', JStr ''Bob'')]),
      CreateTable ''orders'',
      Raise (Raised ''boom'')]"

text \<open>A table of five people, inserted in no particular order.\<close>

definition people_db :: db where
  "people_db =
     \<lparr>data =
        [(''_meta'', JDict [(''tables'', JList [JStr ''people'']), (''created'', JStr ''t''),
                            (''version'', JStr ''1.0.0'')]),
         (''people'', JList [JDict [(''name'', JStr ''Alice''), (''age'', JInt 28)],
                             JDict [(''name'', JStr ''Bob''), (''age'', JInt 34)],
                             JDict [(''name'', JStr ''Anna''), (''age'', JInt 22)],
                             JDict [(''name'', JStr ''Charlie''), (''age'', JInt 45)],
                             JDict [(''name'', JStr ''Amy''), (''age'', JInt 31)]])],
      backup = True, db_file = None, backup_file = None, tmp_file = None, ticks = 1\<rparr>"


text \<open>
  Rows whose \<open>age\<close> is a number, a string, or missing: \<open>34 < 'n/a'\<close> is a \<open>TypeError\<close> in
  Python.
\<close>

definition mixed_rows :: "json list" where
  "mixed_rows =
     [JDict [(''name'', JStr ''Bob''), (''age'', JStr ''n/a'')],
      JDict [(''name'', JStr ''Alice''), (''age'', JInt 34)],
      JDict [(''name'', JStr ''Eve'')]]"

section \<open>Facts about dicts and the write\<close>

lemma keys_dict_set_eq:
  "keys (dict_set d k v) = (if k \<in> set (keys d) then keys d else keys d @ [k])"
  unfolding keys_def by (induction d) force+

lemma keys_dict_set: "set (keys (dict_set d k v)) = insert k (set (keys d))"
  by (simp add: keys_dict_set_eq insert_absorb)

lemma map_of_dict_set: "map_of (dict_set d k v) = (map_of d)(k \<mapsto> v)"
  by (induction d) (auto simp: fun_eq_iff)

lemma keys_dict_set_present:
  "k \<in> set (keys d) \<Longrightarrow> keys (dict_set d k v) = keys d"
  by (simp add: keys_dict_set_eq)

lemma map_of_keys: "map_of d k = Some v \<Longrightarrow> k \<in> set (keys d)"
  by (auto simp: keys_def dest: map_of_SomeD intro: rev_image_eqI)

lemma map_of_None_keys: "(map_of d k = None) = (k \<notin> set (keys d))"
  by (simp add: keys_def map_of_eq_None_iff)

lemma write_db_ok:
  "write_db X s = (Inr u, s') \<Longrightarrow>
     \<exists>m. map_of (data s) ''_meta'' = Some (JDict m)
       \<and> data s' = dict_set (data s) ''_meta''
                      (JDict (dict_set m ''last_modified'' (JStr (now X (ticks s)))))
       \<and> db_file s' = Some (Document (data s))
       \<and> tmp_file s' = None
       \<and> backup s' = backup s
       \<and> ticks s' = Suc (ticks s)"
  unfolding write_db_def Let_def
  by (auto split: option.splits json.splits if_splits)

lemma init_has_meta:
  "init X bk f bf tf k = Inr s \<Longrightarrow> ''_meta'' \<in> set (keys (data s))"
  unfolding init_def Let_def
  by (auto simp: keys_dict_set split: if_splits sum.splits prod.splits)

lemma store_inv_iff:
  "store_inv s \<longleftrightarrow>
     (\<exists>m ts. map_of (data s) ''_meta'' = Some (JDict m)
        \<and> map_of m ''tables'' = Some (JList ts)
        \<and> distinct (keys (data s)) \<and> distinct ts
        \<and> set ts = set (map JStr (table_names (data s)))
        \<and> list_all (\<lambda>n. \<not> startswith n ''_'') (table_names (data s)))"
proof (cases "map_of (data s) ''_meta''")
  case None
  then show ?thesis by (simp add: store_inv_def)
next
  case (Some a)
  show ?thesis
  proof (cases a)
    case (JDict m)
    show ?thesis
    proof (cases "map_of m ''tables''")
      case None
      with Some JDict show ?thesis by (simp add: store_inv_def)
    next
      case (Some b)
      with \<open>map_of (data s) ''_meta'' = Some a\<close> JDict show ?thesis
        by (cases b) (simp_all add: store_inv_def)
    qed
  qed (use Some in \<open>simp_all add: store_inv_def\<close>)
qed

section \<open>Writing and opening again\<close>

text \<open>
  C1, as the code has it. \<open>_write_db\<close> dumps the store and sets \<open>last_modified\<close> in memory
  afterwards, so the file holds the store as it was when the write began. Opening the path
  again yields exactly that store. The store in memory after the write has the same keys
  and the same entry under every name but \<open>_meta\<close>, and its \<open>_meta\<close> is that of the file
  with \<open>last_modified\<close> set to the time of the write.
\<close>

theorem reopen_yields_the_store_as_dumped:
  "write_db X s = (Inr u, s') \<Longrightarrow>
     read_db s' = Inr (data s)
     \<and> (\<exists>s''. reopen X s' = Inr s'' \<and> data s'' = data s)
     \<and> keys (data s') = keys (data s)
     \<and> (\<forall>n. n \<noteq> ''_meta'' \<longrightarrow> map_of (data s') n = map_of (data s) n)
     \<and> (\<exists>m. map_of (data s) ''_meta'' = Some (JDict m)
            \<and> map_of (data s') ''_meta''
                = Some (JDict (dict_set m ''last_modified'' (JStr (now X (ticks s))))))"
proof -
  assume w: "write_db X s = (Inr u, s')"
  from write_db_ok [OF w] obtain m where
    m: "map_of (data s) ''_meta'' = Some (JDict m)"
    and d: "data s' = dict_set (data s) ''_meta''
                      (JDict (dict_set m ''last_modified'' (JStr (now X (ticks s)))))"
    and f: "db_file s' = Some (Document (data s))"
    by blast
  have mem: "''_meta'' \<in> set (keys (data s))"
    using m by (rule map_of_keys)
  have "read_db s' = Inr (data s)"
    using f by (simp add: read_db_def)
  moreover have "\<exists>s''. reopen X s' = Inr s'' \<and> data s'' = data s"
    using f mem by (simp add: reopen_def init_def read_db_def)
  moreover have "keys (data s') = keys (data s)"
    using d mem by (simp add: keys_dict_set_present)
  moreover have "\<forall>n. n \<noteq> ''_meta'' \<longrightarrow> map_of (data s') n = map_of (data s) n"
    using d by (simp add: map_of_dict_set)
  moreover have "map_of (data s') ''_meta''
      = Some (JDict (dict_set m ''last_modified'' (JStr (now X (ticks s)))))"
    using d by (simp add: map_of_dict_set)
  ultimately show ?thesis using m by blast
qed

lemma write_users:
  "write_db plain_ext users_db =
     (Inr (),
      \<lparr>data =
        [(''_meta'', JDict [(''tables'', JList [JStr ''users'']), (''created'', JStr ''t''),
                            (''version'', JStr ''1.0.0''), (''last_modified'', JStr ''tI'')]),
         (''users'', JList [JDict [(''name'', JStr ''Alice''), (''age'', JInt 28)],
                            JDict [(''name'', JStr ''Bob''), (''age'', JInt 34)]])],
       backup = True, db_file = Some (Document (data users_db)), backup_file = None,
       tmp_file = None, ticks = 2\<rparr>)"
  by (simp add: write_db_def users_db_def plain_ext_def Let_def)

theorem reopen_yields_the_store_as_dumped_witness:
  "fst (write_db plain_ext users_db) = Inr ()
   \<and> read_db (snd (write_db plain_ext users_db)) = Inr (data users_db)
   \<and> map_sum id data (reopen plain_ext (snd (write_db plain_ext users_db)))
       = Inr (data users_db)"
  using reopen_yields_the_store_as_dumped [OF write_users] write_users by auto

text \<open>
  C1 as stated fails on the metadata: after the write, the store in memory has a
  \<open>last_modified\<close> field and the store read back from the path has none.
\<close>

theorem reopened_store_lacks_last_modified:
  "fst (write_db plain_ext users_db) = Inr ()
   \<and> map_sum id data (reopen plain_ext (snd (write_db plain_ext users_db)))
       = Inr (data users_db)
   \<and> map_of (data (snd (write_db plain_ext users_db))) ''_meta''
       = Some (JDict [(''tables'', JList [JStr ''users'']), (''created'', JStr ''t''),
                      (''version'', JStr ''1.0.0''), (''last_modified'', JStr ''tI'')])
   \<and> map_of (data users_db) ''_meta''
       = Some (JDict [(''tables'', JList [JStr ''users'']), (''created'', JStr ''t''),
                      (''version'', JStr ''1.0.0'')])
   \<and> data (snd (write_db plain_ext users_db)) \<noteq> data users_db"
proof -
  have d: "data users_db =
      [(''_meta'', JDict [(''tables'', JList [JStr ''users'']), (''created'', JStr ''t''),
                          (''version'', JStr ''1.0.0'')]),
       (''users'', JList [JDict [(''name'', JStr ''Alice''), (''age'', JInt 28)],
                          JDict [(''name'', JStr ''Bob''), (''age'', JInt 34)]])]"
    by (simp add: users_db_def)
  show ?thesis
    by (simp add: write_users reopen_def init_def read_db_def) (simp add: d keys_def)
qed

section \<open>The \<open>$exists\<close> operator\<close>

text \<open>
  C2. When the condition mapping of a field has the key \<open>$exists\<close> with a boolean \<open>b\<close>, the
  field passes exactly when \<open>b\<close> equals the presence of the field's key in the record: the
  loop goes on to the remaining fields in that case and returns \<open>False\<close> otherwise. The
  other operators of the mapping, known or unknown, play no part, and the value of the
  field is never looked up: the result is the same for every \<open>ops\<close> and every record with
  the same keys, and it is never an error.
\<close>

theorem exists_settles_field:
  "map_of ops ''$exists'' = Some (JBool b) \<Longrightarrow>
     condition_func X ((field, JDict ops) # rest) (JDict r) =
       (if b = (field \<in> set (keys r)) then condition_func X rest (JDict r) else Inr False)
     \<and> condition_func X [(field, JDict ops)] (JDict r) = Inr (b = (field \<in> set (keys r)))"
  by (auto simp: check_field_def)

theorem exists_settles_field_witness:
  "map_of [(''$gt'', JStr ''x''), (''$exists'', JBool True), (''$bogus'', JInt 1)] ''$exists''
     = Some (JBool True)
   \<and> condition_func plain_ext
       [(''age'', JDict [(''$gt'', JStr ''x''), (''$exists'', JBool True), (''$bogus'', JInt 1)])]
       (JDict [(''age'', JInt 5)]) = Inr True"
  using exists_settles_field
    [of "[(''$gt'', JStr ''x''), (''$exists'', JBool True), (''$bogus'', JInt 1)]" True
        plain_ext "''age''" "[]" "[(''age'', JInt 5)]"]
  by (simp add: keys_def check_field_def)

section \<open>The reserved key\<close>

text \<open>
  Where the metadata entry is in place. \<open>exists_table\<close> tests membership in \<open>self._data\<close>,
  and \<open>__init__\<close> leaves every store it constructs with a \<open>_meta\<close> entry, whatever the file
  held: \<open>exists_table("_meta")\<close> is true. In a store that satisfies the invariant of the
  data model, \<open>list_tables\<close> does not return \<open>_meta\<close>, and \<open>create_table("_meta")\<close> raises
  and changes nothing.
\<close>

lemma meta_key_under_invariant:
  "(init X bk f bf tf k = Inr s \<longrightarrow> exists_table s ''_meta'')
   \<and> (store_inv s' \<longrightarrow>
        exists_table s' ''_meta''
        \<and> (\<exists>ts. list_tables s' = Inr (JList ts) \<and> JStr ''_meta'' \<notin> set ts)
        \<and> (\<exists>e. create_table X s' ''_meta'' = (Inl e, s')))"
proof (intro conjI impI)
  assume "init X bk f bf tf k = Inr s"
  then show "exists_table s ''_meta''"
    by (simp add: exists_table_def init_has_meta)
next
  assume inv: "store_inv s'"
  then obtain m ts where m: "map_of (data s') ''_meta'' = Some (JDict m)"
    and ts: "map_of m ''tables'' = Some (JList ts)"
    and names: "set ts = set (map JStr (table_names (data s')))"
    unfolding store_inv_iff by blast
  from m have mem: "''_meta'' \<in> set (keys (data s'))"
    by (rule map_of_keys)
  show "exists_table s' ''_meta''"
    using mem by (simp add: exists_table_def)
  have "list_tables s' = Inr (JList ts)"
    using m ts by (simp add: list_tables_def meta_tables_def)
  moreover have "JStr ''_meta'' \<notin> set ts"
    using names by (auto simp: table_names_def)
  ultimately show "\<exists>ts. list_tables s' = Inr (JList ts) \<and> JStr ''_meta'' \<notin> set ts"
    by blast
  show "\<exists>e. create_table X s' ''_meta'' = (Inl e, s')"
    using mem by (simp add: create_table_def)
qed

lemma fresh_init:
  "init plain_ext True None None None 0 = Inr
    \<lparr>data = [(''_meta'', JDict [(''tables'', JList []), (''created'', JStr ''t''),
            (''version'', JStr ''1.0.0''), (''last_modified'', JStr ''tI'')])],
        backup = True,
        db_file = Some (Document [(''_meta'', JDict [(''tables'', JList []), (''created'', JStr ''t''),
                 (''version'', JStr ''1.0.0'')])]),
        backup_file = None, tmp_file = None, ticks = 2\<rparr>"
  by (simp add: init_def write_db_def fresh_meta_def plain_ext_def keys_def Let_def)

lemma users_inv: "store_inv users_db"
  by (simp add: store_inv_def users_db_def keys_def table_names_def)

lemma meta_key_of_users:
  "exists_table users_db ''_meta''
   \<and> list_tables users_db = Inr (JList [JStr ''users''])
   \<and> fst (create_table plain_ext users_db ''_meta'') =
        Inl (TableExistsError ''Table '_meta' already exists. Use drop_table() first or choose a different name.'')"
  using meta_key_under_invariant [of plain_ext True None None None 0 _ users_db] users_inv
  by (simp add: users_db_def list_tables_def meta_tables_def create_table_def keys_def quoted_def)

text \<open>
  C10 fails on the code: the top-level mapping does not always contain the metadata entry.
  \<open>drop_table\<close> lacks the underscore guard that \<open>create_table\<close> has, so
  \<open>drop_table("_meta")\<close> deletes the entry before it raises. On the store with the table
  \<open>users\<close>, \<open>exists_table("_meta")\<close> is true before that call and false after it, while
  \<open>exists_table("users")\<close> stays true.
\<close>

theorem meta_key_gone_after_drop_table:
  "exists_table users_db ''_meta''
   \<and> fst (drop_table plain_ext users_db ''_meta'') = Inl (KeyError ''_meta'')
   \<and> \<not> exists_table (snd (drop_table plain_ext users_db ''_meta'')) ''_meta''
   \<and> exists_table (snd (drop_table plain_ext users_db ''_meta'')) ''users''
   \<and> keys (data (snd (drop_table plain_ext users_db ''_meta''))) = [''users'']"
  by (simp add: exists_table_def drop_table_def users_db_def dict_del_def meta_tables_def
      keys_def)

section \<open>Unknown table names\<close>

lemma map_err_str_of: "map_err str_of (map JStr names) = Inr names"
  by (induction names) (simp_all add: str_of_def)

lemma not_found_available_eq:
  "list_tables s = Inr (JList (map JStr names)) \<Longrightarrow>
     not_found_available s table_name =
       TableNotFoundError (does_not_exist table_name @ available_tables (join '', '' names))"
  by (simp add: not_found_available_def py_join_def map_err_str_of)

text \<open>
  In a store that satisfies the invariant of the data model, \<open>list_tables\<close> returns a list
  of strings, the names of the tables.
\<close>

lemma strings_of_names: "set ts \<subseteq> range JStr \<Longrightarrow> \<exists>names. ts = map JStr names"
proof (induction ts)
  case Nil
  then show ?case by simp
next
  case (Cons t ts)
  then obtain n names where "t = JStr n" "ts = map JStr names"
    by auto
  then have "t # ts = map JStr (n # names)"
    by simp
  then show ?case by (rule exI)
qed

lemma store_inv_lists_tables:
  assumes "store_inv s"
  shows "\<exists>names. list_tables s = Inr (JList (map JStr names))
           \<and> set names = set (table_names (data s))"
proof -
  from assms obtain m ts where m: "map_of (data s) ''_meta'' = Some (JDict m)"
    and ts: "map_of m ''tables'' = Some (JList ts)"
    and names: "set ts = set (map JStr (table_names (data s)))"
    unfolding store_inv_iff by blast
  from names have "set ts \<subseteq> range JStr"
    by auto
  then obtain ns where ns: "ts = map JStr ns"
    using strings_of_names by blast
  have "list_tables s = Inr (JList (map JStr ns))"
    using m ts ns by (simp add: list_tables_def meta_tables_def)
  moreover have "set ns = set (table_names (data s))"
    using names ns by (auto simp: image_iff)
  ultimately show ?thesis by blast
qed

text \<open>
  C8, as the code has it. Take a name that is not a key of the store (the reserved key
  \<open>_meta\<close> is one, so it never takes this path). \<open>update\<close>, \<open>delete\<close>, \<open>clear_table\<close> and
  \<open>stats\<close> raise \<open>TableNotFoundError\<close> with the message \<open>Table 'x' does not exist\<close>, which
  names no table, and leave the store as it is. \<open>select\<close> and \<open>drop_table\<close> build their
  message from \<open>list_tables\<close>: on a store whose metadata lists the table names, that is,
  where \<open>list_tables\<close> returns a list of strings, they raise \<open>TableNotFoundError\<close> with a
  message that ends with these names, joined by a comma and a space (\<open>none\<close> when that text
  is empty), and leave the store as it is.
\<close>

theorem not_found_messages:
  "table_name \<notin> set (keys (data s)) \<Longrightarrow>
     update X s table_name f u = (Inl (TableNotFoundError (does_not_exist table_name)), s)
   \<and> delete X s table_name f = (Inl (TableNotFoundError (does_not_exist table_name)), s)
   \<and> clear_table X s table_name = (Inl (TableNotFoundError (does_not_exist table_name)), s)
   \<and> stats X s table_name = (Inl (TableNotFoundError (does_not_exist table_name)), s)
   \<and> (list_tables s = Inr (JList (map JStr names)) \<longrightarrow>
        select X s table_name filters field_names limit offset order_by reverse =
          (Inl (TableNotFoundError
                 (does_not_exist table_name @ available_tables (join '', '' names))), s)
        \<and> drop_table X s table_name =
          (Inl (TableNotFoundError
                 (does_not_exist table_name @ available_tables (join '', '' names))), s))"
  by (simp add: map_of_None_keys [symmetric] select_def drop_table_def update_def delete_def
      clear_table_def stats_def not_found_plain_def not_found_available_eq)

lemma users_tables: "list_tables users_db = Inr (JList (map JStr [''users'']))"
  by (simp add: users_db_def list_tables_def meta_tables_def)

theorem not_found_messages_witness:
  "''ghost'' \<notin> set (keys (data users_db))
   \<and> list_tables users_db = Inr (JList (map JStr [''users'']))
   \<and> select plain_ext users_db ''ghost'' None None None 0 None False =
       (Inl (TableNotFoundError ''Table 'ghost' does not exist. Available tables: users''),
        users_db)
   \<and> delete plain_ext users_db ''ghost'' (FDict []) =
       (Inl (TableNotFoundError ''Table 'ghost' does not exist''), users_db)"
  using not_found_messages [of "''ghost''" users_db plain_ext "FDict []" "UDict []" "[''users'']"
      None None None 0 None False] users_tables
  by (simp add: users_db_def keys_def does_not_exist_def quoted_def available_tables_def)

text \<open>
  C8 as stated fails: the store has the table \<open>users\<close>, and the error of \<open>update\<close> on an
  unknown name does not mention it.
\<close>

theorem update_not_found_lists_nothing:
  "list_tables users_db = Inr (JList [JStr ''users''])
   \<and> fst (update plain_ext users_db ''ghost'' (FDict []) (UDict [(''age'', JInt 1)])) =
       Inl (TableNotFoundError ''Table 'ghost' does not exist'')"
  by (simp add: users_db_def list_tables_def meta_tables_def update_def not_found_plain_def
      does_not_exist_def quoted_def)

section \<open>Unknown operators\<close>

lemma match_op_unknown:
  "op \<notin> set valid_operators \<Longrightarrow> match_op X v op x = Inl (unknown_operator op)"
  by (simp add: valid_operators_def match_op_def)

lemma match_ops_append:
  "\<forall>a \<in> set ops1. match_op X v (fst a) (snd a) = Inr None \<Longrightarrow>
     match_ops X v (ops1 @ ops2) = match_ops X v ops2"
  by (induction ops1) auto

lemma condition_func_append:
  "\<forall>a \<in> set fs1. check_field X row (fst a) (snd a) = Inr True \<Longrightarrow>
     condition_func X (fs1 @ fs2) row = condition_func X fs2 row"
  by (induction fs1) auto

lemma filter_err_first_error:
  "\<forall>r \<in> set pre. \<exists>b. p r = Inr b \<Longrightarrow> p r0 = Inl e \<Longrightarrow>
     filter_err p (pre @ r0 # post) = Inl e"
  by (induction pre) (auto split: sum.splits)

lemma select_frame: "snd (select X s t f fl l off ob rv) = s"
  by (simp add: select_def split: option.splits sum.splits)

lemma check_field_no_exists:
  "map_of ops ''$exists'' = None \<Longrightarrow> map_of d field = Some v \<Longrightarrow>
     check_field X (JDict d) field (JDict ops) =
       (case match_ops X v ops of Inl e \<Rightarrow> Inl e | Inr b \<Rightarrow> Inr b)"
  by (auto simp: check_field_def match_condition_def dest: map_of_keys split: sum.splits)

lemma unknown_reached:
  assumes op: "op \<notin> set valid_operators"
    and noex: "''$exists'' \<notin> set (keys (ops1 @ (op, x) # ops2))"
    and before_fields: "\<forall>a \<in> set fs1. check_field X (JDict d) (fst a) (snd a) = Inr True"
    and present: "map_of d field = Some v"
    and before_ops: "\<forall>a \<in> set ops1. match_op X v (fst a) (snd a) = Inr None"
  shows "condition_func X (fs1 @ (field, JDict (ops1 @ (op, x) # ops2)) # fs2) (JDict d)
           = Inl (unknown_operator op)"
proof -
  have "match_ops X v (ops1 @ (op, x) # ops2) = Inl (unknown_operator op)"
    using match_ops_append [OF before_ops] match_op_unknown [OF op] by simp
  moreover have "map_of (ops1 @ (op, x) # ops2) ''$exists'' = None"
    using noex by (rule iffD2 [OF map_of_None_keys])
  ultimately have "check_field X (JDict d) field (JDict (ops1 @ (op, x) # ops2))
      = Inl (unknown_operator op)"
    using check_field_no_exists [OF _ present, of "ops1 @ (op, x) # ops2" X] by simp
  then show ?thesis
    using condition_func_append [OF before_fields] by simp
qed

text \<open>
  C3, as the code has it. There is no validation of the filter before it is evaluated:
  the unknown operator raises when the loop of \<open>_match_condition\<close> reaches it, that is, for
  a record that has the field, under a condition mapping without a \<open>$exists\<close> key, when the
  fields before it and the operators before it in the mapping all passed. \<open>select\<close> raises
  that \<open>QueryError\<close> when this happens at a row and no row before it raised. Whether it
  raises or returns, \<open>select\<close> leaves the store as it is.
\<close>

theorem unknown_operator_raises_when_reached:
  assumes "op \<notin> set valid_operators"
    and "''$exists'' \<notin> set (keys (ops1 @ (op, x) # ops2))"
    and "map_of (data s) table_name = Some (JList (pre @ JDict d # post))"
    and "\<forall>r \<in> set pre. \<exists>b.
           condition_func X (fs1 @ (field, JDict (ops1 @ (op, x) # ops2)) # fs2) r = Inr b"
    and "\<forall>a \<in> set fs1. check_field X (JDict d) (fst a) (snd a) = Inr True"
    and "map_of d field = Some v"
    and "\<forall>a \<in> set ops1. match_op X v (fst a) (snd a) = Inr None"
  shows "select X s table_name
           (Some (FDict (fs1 @ (field, JDict (ops1 @ (op, x) # ops2)) # fs2)))
           field_names limit offset order_by reverse
         = (Inl (unknown_operator op), s)
       \<and> snd (select X s t f field_names' limit' offset' order_by' reverse') = s"
proof -
  let ?filters = "fs1 @ (field, JDict (ops1 @ (op, x) # ops2)) # fs2"
  have "condition_func X ?filters (JDict d) = Inl (unknown_operator op)"
    using assms(1,2,5,6,7) by (rule unknown_reached)
  then have "filter_err (apply_filter X (FDict ?filters)) (pre @ JDict d # post)
      = Inl (unknown_operator op)"
    using assms(4) by (intro filter_err_first_error) (simp_all add: apply_filter_def)
  then have "filter_stage X (Some (FDict ?filters)) (JList (pre @ JDict d # post))
      = Inl (unknown_operator op)"
    by (simp add: filter_stage_def)
  then have "select X s table_name (Some (FDict ?filters)) field_names limit offset order_by
      reverse = (Inl (unknown_operator op), s)"
    using assms(3) by (simp add: select_def)
  then show ?thesis
    using select_frame by blast
qed

theorem unknown_operator_raises_when_reached_witness:
  "''$bogus'' \<notin> set valid_operators
   \<and> ''$exists'' \<notin> set (keys ([(''$gte'', JInt 18)] @ (''$bogus'', JInt 1) # []))
   \<and> map_of (data users_db) ''users''
       = Some (JList ([] @ JDict [(''name'', JStr ''Alice''), (''age'', JInt 28)]
                        # [JDict [(''name'', JStr ''Bob''), (''age'', JInt 34)]]))
   \<and> map_of [(''name'', JStr ''Alice''), (''age'', JInt 28)] ''age'' = Some (JInt 28)
   \<and> match_op plain_ext (JInt 28) ''$gte'' (JInt 18) = Inr None
   \<and> select plain_ext users_db ''users''
        (Some (FDict [(''age'', JDict [(''$gte'', JInt 18), (''$bogus'', JInt 1)])]))
        None None 0 None False
       = (Inl (unknown_operator ''$bogus''), users_db)"
  using unknown_operator_raises_when_reached [of "''$bogus''" "[(''$gte'', JInt 18)]" "JInt 1" "[]" users_db "''users''" "[]"
      "[(''name'', JStr ''Alice''), (''age'', JInt 28)]"
      "[JDict [(''name'', JStr ''Bob''), (''age'', JInt 34)]]" plain_ext "[]" "''age''" "[]"
      "JInt 28" None None 0 None False]
  by (simp add: valid_operators_def keys_def users_db_def match_op_def py_ge_def holds_def
      int_cmp_def)

text \<open>
  C3 as stated fails: a record without the field does not match, and no error is raised;
  \<open>select\<close> with the unknown operator under a field that no row has returns the empty list.
\<close>

theorem unknown_operator_not_reached:
  "''$bogus'' \<notin> set valid_operators
   \<and> condition_func plain_ext [(''age'', JDict [(''$bogus'', JInt 1)])]
        (JDict [(''name'', JStr ''Alice'')]) = Inr False
   \<and> select plain_ext users_db ''users''
        (Some (FDict [(''salary'', JDict [(''$bogus'', JInt 1)])])) None None 0 None False
       = (Inr [], users_db)"
  by (simp add: valid_operators_def check_field_def keys_def select_def users_db_def
      filter_stage_def apply_filter_def sort_stage_def page_stage_def project_stage_def)

section \<open>The order of the stages of select\<close>

lemma filter_stage_list:
  "filter_stage X f (JList xs) = Inr r \<Longrightarrow> \<exists>ys. r = JList ys"
  by (auto simp: filter_stage_def split: option.splits filt.splits sum.splits)

lemma sort_stage_list:
  "sort_stage X ob rv (JList xs) = Inr r \<Longrightarrow> \<exists>ys. r = JList ys"
  by (auto simp: sort_stage_def split: option.splits if_splits sum.splits)

lemma page_stage_list:
  "0 \<le> offset \<Longrightarrow> 0 \<le> limit \<Longrightarrow>
     page_stage X offset (Some limit) (JList xs) = Inr (JList (take (nat limit) (drop (nat offset) xs)))"
  by (simp add: page_stage_def slice_from_def slice_to_def slice_stop_def)

lemma page_stage_none: "page_stage X 0 None r = Inr r"
  by (simp add: page_stage_def)

lemma map_err_take: "map_err f xs = Inr ys \<Longrightarrow> map_err f (take m xs) = Inr (take m ys)"
proof (induction xs arbitrary: ys m)
  case Nil
  then show ?case by simp
next
  case (Cons x xs)
  then show ?case by (cases m) (auto split: sum.splits)
qed

lemma map_err_drop: "map_err f xs = Inr ys \<Longrightarrow> map_err f (drop n xs) = Inr (drop n ys)"
proof (induction xs arbitrary: ys n)
  case Nil
  then show ?case by simp
next
  case (Cons x xs)
  then show ?case by (cases n) (auto split: sum.splits)
qed

lemma project_stage_page:
  "project_stage fl (JList xs) = Inr full \<Longrightarrow>
     project_stage fl (JList (take m (drop n xs))) = Inr (take m (drop n full))"
  by (auto simp: project_stage_def map_err_take map_err_drop split: option.splits projection.splits)

text \<open>
  C4. For a table (a list of rows) and an offset and a limit that are not negative,
  \<open>select\<close> filters, then sorts, then cuts the page out of the sorted list, then projects:
  its result is the projection of rows \<open>offset + 1\<close> to \<open>offset + limit\<close> of the filtered and
  sorted list, whatever order the rows were inserted in, and whenever the same query
  without offset and limit returns \<open>full\<close>, the query returns that slice of \<open>full\<close>.
\<close>

theorem pagination_after_filter_and_sort:
  assumes t: "map_of (data s) table_name = Some (JList xs)"
    and n: "0 \<le> offset" and m: "0 \<le> limit"
  shows "(filter_stage X filters (JList xs) = Inr (JList kept) \<longrightarrow>
          sort_stage X order_by reverse (JList kept) = Inr (JList ordered) \<longrightarrow>
            select X s table_name filters field_names (Some limit) offset order_by reverse
              = (project_stage field_names (JList (take (nat limit) (drop (nat offset) ordered))), s)
            \<and> select X s table_name filters field_names None 0 order_by reverse
              = (project_stage field_names (JList ordered), s))
       \<and> (select X s table_name filters field_names None 0 order_by reverse = (Inr full, s') \<longrightarrow>
            select X s table_name filters field_names (Some limit) offset order_by reverse
              = (Inr (take (nat limit) (drop (nat offset) full)), s))"
proof (intro conjI impI)
  assume f: "filter_stage X filters (JList xs) = Inr (JList kept)"
    and so: "sort_stage X order_by reverse (JList kept) = Inr (JList ordered)"
  show "select X s table_name filters field_names (Some limit) offset order_by reverse
      = (project_stage field_names (JList (take (nat limit) (drop (nat offset) ordered))), s)"
    using t f so n m by (simp add: select_def page_stage_list split: sum.splits)
  show "select X s table_name filters field_names None 0 order_by reverse
      = (project_stage field_names (JList ordered), s)"
    using t f so by (simp add: select_def page_stage_none split: sum.splits)
next
  assume full: "select X s table_name filters field_names None 0 order_by reverse = (Inr full, s')"
  from full t obtain r1 where r1: "filter_stage X filters (JList xs) = Inr r1"
    by (auto simp: select_def split: sum.splits)
  then obtain kept where fl: "r1 = JList kept"
    using filter_stage_list by blast
  from full t r1 fl obtain r2 where r2: "sort_stage X order_by reverse (JList kept) = Inr r2"
    by (auto simp: select_def split: sum.splits)
  then obtain ordered where so: "r2 = JList ordered"
    using sort_stage_list by blast
  from full t r1 fl r2 so have p: "project_stage field_names (JList ordered) = Inr full"
    by (auto simp: select_def page_stage_none split: sum.splits)
  show "select X s table_name filters field_names (Some limit) offset order_by reverse
      = (Inr (take (nat limit) (drop (nat offset) full)), s)"
    using t r1 fl r2 so n m project_stage_page [OF p]
    by (simp add: select_def page_stage_list)
qed

lemma people_full:
  "select plain_ext people_db ''people'' (Some (FDict [(''age'', JDict [(''$gte'', JInt 25)])]))
     None None 0 (Some ''age'') False
   = (Inr [JDict [(''name'', JStr ''Alice''), (''age'', JInt 28)],
           JDict [(''name'', JStr ''Amy''), (''age'', JInt 31)],
           JDict [(''name'', JStr ''Bob''), (''age'', JInt 34)],
           JDict [(''name'', JStr ''Charlie''), (''age'', JInt 45)]], people_db)"
  by code_simp


lemma people_rows:
  "map_of (data people_db) ''people''
   = Some (JList [JDict [(''name'', JStr ''Alice''), (''age'', JInt 28)],
                  JDict [(''name'', JStr ''Bob''), (''age'', JInt 34)],
                  JDict [(''name'', JStr ''Anna''), (''age'', JInt 22)],
                  JDict [(''name'', JStr ''Charlie''), (''age'', JInt 45)],
                  JDict [(''name'', JStr ''Amy''), (''age'', JInt 31)]])"
  by (simp add: people_db_def)

lemma people_kept:
  "filter_stage plain_ext (Some (FDict [(''age'', JDict [(''$gte'', JInt 25)])]))
     (JList [JDict [(''name'', JStr ''Alice''), (''age'', JInt 28)],
             JDict [(''name'', JStr ''Bob''), (''age'', JInt 34)],
             JDict [(''name'', JStr ''Anna''), (''age'', JInt 22)],
             JDict [(''name'', JStr ''Charlie''), (''age'', JInt 45)],
             JDict [(''name'', JStr ''Amy''), (''age'', JInt 31)]])
   = Inr (JList [JDict [(''name'', JStr ''Alice''), (''age'', JInt 28)],
                 JDict [(''name'', JStr ''Bob''), (''age'', JInt 34)],
                 JDict [(''name'', JStr ''Charlie''), (''age'', JInt 45)],
                 JDict [(''name'', JStr ''Amy''), (''age'', JInt 31)]])"
  by code_simp

lemma people_ordered:
  "sort_stage plain_ext (Some ''age'') False
     (JList [JDict [(''name'', JStr ''Alice''), (''age'', JInt 28)],
             JDict [(''name'', JStr ''Bob''), (''age'', JInt 34)],
             JDict [(''name'', JStr ''Charlie''), (''age'', JInt 45)],
             JDict [(''name'', JStr ''Amy''), (''age'', JInt 31)]])
   = Inr (JList [JDict [(''name'', JStr ''Alice''), (''age'', JInt 28)],
                 JDict [(''name'', JStr ''Amy''), (''age'', JInt 31)],
                 JDict [(''name'', JStr ''Bob''), (''age'', JInt 34)],
                 JDict [(''name'', JStr ''Charlie''), (''age'', JInt 45)]])"
  by code_simp

theorem pagination_after_filter_and_sort_witness:
  "map_of (data people_db) ''people''
   = Some (JList [JDict [(''name'', JStr ''Alice''), (''age'', JInt 28)],
                  JDict [(''name'', JStr ''Bob''), (''age'', JInt 34)],
                  JDict [(''name'', JStr ''Anna''), (''age'', JInt 22)],
                  JDict [(''name'', JStr ''Charlie''), (''age'', JInt 45)],
                  JDict [(''name'', JStr ''Amy''), (''age'', JInt 31)]])
   \<and> (0::int) \<le> 2
   \<and> select plain_ext people_db ''people''
        (Some (FDict [(''age'', JDict [(''$gte'', JInt 25)])])) None None 0 (Some ''age'') False
       = (Inr [JDict [(''name'', JStr ''Alice''), (''age'', JInt 28)],
               JDict [(''name'', JStr ''Amy''), (''age'', JInt 31)],
               JDict [(''name'', JStr ''Bob''), (''age'', JInt 34)],
               JDict [(''name'', JStr ''Charlie''), (''age'', JInt 45)]], people_db)
   \<and> select plain_ext people_db ''people''
        (Some (FDict [(''age'', JDict [(''$gte'', JInt 25)])])) None (Some 2) 2 (Some ''age'') False
       = (Inr [JDict [(''name'', JStr ''Bob''), (''age'', JInt 34)],
               JDict [(''name'', JStr ''Charlie''), (''age'', JInt 45)]], people_db)"
  using pagination_after_filter_and_sort [OF people_rows,
      where offset = 2 and limit = 2 and X = plain_ext
        and filters = "Some (FDict [(''age'', JDict [(''$gte'', JInt 25)])])"
        and order_by = "Some ''age''" and reverse = False and field_names = None
        and kept = "[JDict [(''name'', JStr ''Alice''), (''age'', JInt 28)],
                     JDict [(''name'', JStr ''Bob''), (''age'', JInt 34)],
                     JDict [(''name'', JStr ''Charlie''), (''age'', JInt 45)],
                     JDict [(''name'', JStr ''Amy''), (''age'', JInt 31)]]"
        and ordered = "[JDict [(''name'', JStr ''Alice''), (''age'', JInt 28)],
                        JDict [(''name'', JStr ''Amy''), (''age'', JInt 31)],
                        JDict [(''name'', JStr ''Bob''), (''age'', JInt 34)],
                        JDict [(''name'', JStr ''Charlie''), (''age'', JInt 45)]]"
        and full = "[JDict [(''name'', JStr ''Alice''), (''age'', JInt 28)],
                     JDict [(''name'', JStr ''Amy''), (''age'', JInt 31)],
                     JDict [(''name'', JStr ''Bob''), (''age'', JInt 34)],
                     JDict [(''name'', JStr ''Charlie''), (''age'', JInt 45)]]"
        and s' = people_db]
    people_full people_rows people_kept people_ordered
  by (simp add: project_stage_def)

section \<open>Sorting never raises\<close>

lemma str_cmp_swap: "str_cmp b a = GT \<longleftrightarrow> str_cmp a b = LT"
  by (induction a b rule: str_cmp.induct) auto

lemma str_cmp_refl: "str_cmp a a = EQ"
  by (induction a) auto

lemma str_cmp_trans:
  "str_cmp a b \<noteq> GT \<Longrightarrow> str_cmp b c \<noteq> GT \<Longrightarrow> str_cmp a c \<noteq> GT"
proof (induction a arbitrary: b c)
  case Nil
  then show ?case by (cases c) auto
next
  case (Cons x a)
  then obtain y b' where b: "b = y # b'" by (cases b) auto
  with Cons.prems obtain z c' where c: "c = z # c'" by (cases c) auto
  from Cons.prems Cons.IH [of b' c'] show ?case
    unfolding b c by (auto split: if_splits)
qed

lemma py_cmp_error:
  "py_cmp a b = Inl e \<Longrightarrow> e = TypeError"
  "py_cmp_list xs ys = Inl e \<Longrightarrow> e = TypeError"
  by (induction a b and xs ys rule: py_cmp_py_cmp_list.induct) (auto split: if_splits)

lemma py_lt_error: "py_lt a b = Inl e \<Longrightarrow> e = TypeError"
  by (auto simp: py_lt_def split: sum.splits dest: py_cmp_error)

lemma insort_keyed_error: "insort_keyed x ys = Inl e \<Longrightarrow> e = TypeError"
  by (induction ys) (auto split: sum.splits if_splits dest: py_lt_error)

lemma sort_keyed_error: "sort_keyed xs = Inl e \<Longrightarrow> e = TypeError"
  by (induction xs arbitrary: e) (auto split: sum.splits dest: insort_keyed_error)

lemma py_sorted_error: "py_sorted rv xs = Inl e \<Longrightarrow> e = TypeError"
  by (auto simp: py_sorted_def split: if_splits sum.splits dest: sort_keyed_error)

text \<open>
  The insertion sort on a class \<open>K\<close> of keys that \<open><\<close> compares without error, as the
  strict part of a total preorder \<open>le\<close>: it returns a permutation in ascending order.
\<close>

lemma insort_keyed_sorted:
  assumes lt: "\<forall>a \<in> K. \<forall>b \<in> K. py_lt a b = Inr (\<not> le b a)"
    and trans: "\<forall>a \<in> K. \<forall>b \<in> K. \<forall>c \<in> K. le a b \<longrightarrow> le b c \<longrightarrow> le a c"
    and total: "\<forall>a \<in> K. \<forall>b \<in> K. le a b \<or> le b a"
    and x: "fst x \<in> K" and ys: "fst ` set ys \<subseteq> K"
    and sorted: "sorted_wrt (\<lambda>p q. le (fst p) (fst q)) ys"
  shows "\<exists>r. insort_keyed x ys = Inr r \<and> mset r = add_mset x (mset ys)
           \<and> sorted_wrt (\<lambda>p q. le (fst p) (fst q)) r"
  using ys sorted
proof (induction ys)
  case Nil
  then show ?case by simp
next
  case (Cons y ys)
  have y: "fst y \<in> K" and ysK: "fst ` set ys \<subseteq> K"
    using Cons.prems(1) by auto
  have sorted_ys: "sorted_wrt (\<lambda>p q. le (fst p) (fst q)) ys"
    and y_le: "\<forall>q \<in> set ys. le (fst y) (fst q)"
    using Cons.prems(2) by auto
  have cmp: "py_lt (fst y) (fst x) = Inr (\<not> le (fst x) (fst y))"
    using lt y x by blast
  show ?case
  proof (cases "le (fst x) (fst y)")
    case True
    have "\<forall>q \<in> set ys. le (fst x) (fst q)"
      using trans x y True y_le ysK by (meson image_subset_iff)
    then show ?thesis
      using cmp True Cons.prems(2) by simp
  next
    case False
    from Cons.IH [OF ysK sorted_ys] obtain r where
      r: "insort_keyed x ys = Inr r" "mset r = add_mset x (mset ys)"
        "sorted_wrt (\<lambda>p q. le (fst p) (fst q)) r"
      by blast
    have yx: "le (fst y) (fst x)"
      using total x y False by blast
    have "set r = insert x (set ys)"
      using r(2) by (metis set_mset_add_mset_insert set_mset_mset)
    then have "\<forall>q \<in> set r. le (fst y) (fst q)"
      using yx y_le by auto
    then show ?thesis
      using cmp False r by simp
  qed
qed

lemma sort_keyed_sorted:
  assumes lt: "\<forall>a \<in> K. \<forall>b \<in> K. py_lt a b = Inr (\<not> le b a)"
    and trans: "\<forall>a \<in> K. \<forall>b \<in> K. \<forall>c \<in> K. le a b \<longrightarrow> le b c \<longrightarrow> le a c"
    and total: "\<forall>a \<in> K. \<forall>b \<in> K. le a b \<or> le b a"
    and xs: "fst ` set xs \<subseteq> K"
  shows "\<exists>r. sort_keyed xs = Inr r \<and> mset r = mset xs
           \<and> sorted_wrt (\<lambda>p q. le (fst p) (fst q)) r"
  using xs
proof (induction xs)
  case Nil
  then show ?case by simp
next
  case (Cons x xs)
  then obtain r where r: "sort_keyed xs = Inr r" "mset r = mset xs"
      "sorted_wrt (\<lambda>p q. le (fst p) (fst q)) r"
    by auto
  have "set r = set xs" using r(2) by (metis set_mset_mset)
  then have rK: "fst ` set r \<subseteq> K" and x: "fst x \<in> K"
    using Cons.prems by auto
  from insort_keyed_sorted [of K le, OF lt trans total x rK r(3)]
  obtain r' where "insort_keyed x r = Inr r'" "mset r' = add_mset x (mset r)"
      "sorted_wrt (\<lambda>p q. le (fst p) (fst q)) r'"
    by blast
  then show ?case using r by simp
qed

lemma py_sorted_sorted:
  assumes lt: "\<forall>a \<in> K. \<forall>b \<in> K. py_lt a b = Inr (\<not> le b a)"
    and trans: "\<forall>a \<in> K. \<forall>b \<in> K. \<forall>c \<in> K. le a b \<longrightarrow> le b c \<longrightarrow> le a c"
    and total: "\<forall>a \<in> K. \<forall>b \<in> K. le a b \<or> le b a"
    and keys: "\<forall>x \<in> set xs. key x \<in> K"
  shows "\<exists>out. py_sorted rv (zip (map key xs) xs) = Inr out \<and> mset out = mset xs
           \<and> sorted_wrt (\<lambda>x y. le (key x) (key y)) (if rv then rev out else out)"
proof -
  let ?kxs = "map (\<lambda>x. (key x, x)) xs"
  have z: "zip (map key xs) xs = ?kxs"
    by (induction xs) simp_all
  let ?in = "if rv then rev ?kxs else ?kxs"
  have "fst ` set ?in \<subseteq> K" using keys by auto
  from sort_keyed_sorted [of K le, OF lt trans total this]
  obtain r where r: "sort_keyed ?in = Inr r" "mset r = mset ?in"
      "sorted_wrt (\<lambda>p q. le (fst p) (fst q)) r"
    by blast
  have "set r = set ?in" using r(2) by (metis set_mset_mset)
  then have pairs: "\<forall>p \<in> set r. fst p = key (snd p)" by auto
  have sorted: "sorted_wrt (\<lambda>x y. le (key x) (key y)) (map snd r)"
    unfolding sorted_wrt_map
    by (rule sorted_wrt_mono_rel [OF _ r(3)]) (use pairs in auto)
  have "mset (map snd r) = mset xs"
  proof -
    have "mset (map snd r) = image_mset snd (mset ?in)" using r(2) by (metis mset_map)
    also have "\<dots> = mset xs" by (simp add: image_mset.compositionality comp_def)
    finally show ?thesis .
  qed
  then show ?thesis
    using r(1) sorted z by (cases rv) (simp_all add: py_sorted_def)
qed

lemma insort_keyed_mset: "insort_keyed x ys = Inr r \<Longrightarrow> mset r = add_mset x (mset ys)"
  by (induction ys arbitrary: r) (auto split: sum.splits if_splits)

lemma sort_keyed_mset: "sort_keyed xs = Inr r \<Longrightarrow> mset r = mset xs"
  by (induction xs arbitrary: r) (auto split: sum.splits dest: insort_keyed_mset)

lemma py_sorted_mset:
  "py_sorted rv (zip (map key xs) xs) = Inr out \<Longrightarrow> mset out = mset xs"
proof -
  assume a: "py_sorted rv (zip (map key xs) xs) = Inr out"
  let ?kxs = "map (\<lambda>x. (key x, x)) xs"
  have z: "zip (map key xs) xs = ?kxs"
    by (induction xs) simp_all
  let ?in = "if rv then rev ?kxs else ?kxs"
  from a z obtain r where r: "sort_keyed ?in = Inr r" and out: "mset out = mset (map snd r)"
    by (cases rv) (auto simp: py_sorted_def split: sum.splits)
  have "mset (map snd r) = image_mset snd (mset ?in)"
    using sort_keyed_mset [OF r] by (metis mset_map)
  also have "\<dots> = mset xs"
    by (simp add: image_mset.compositionality comp_def)
  finally show ?thesis using out by simp
qed

lemma string_order:
  "\<forall>a \<in> Collect is_string. \<forall>b \<in> Collect is_string. py_lt a b = Inr (\<not> holds (py_le b a))"
  "\<forall>a \<in> Collect is_string. \<forall>b \<in> Collect is_string. \<forall>c \<in> Collect is_string.
     holds (py_le a b) \<longrightarrow> holds (py_le b c) \<longrightarrow> holds (py_le a c)"
  "\<forall>a \<in> Collect is_string. \<forall>b \<in> Collect is_string. holds (py_le a b) \<or> holds (py_le b a)"
proof -
  have le: "holds (py_le (JStr s) (JStr t)) = (str_cmp s t \<noteq> GT)" for s t
    by (simp add: py_le_def holds_def)
  have str: "is_string a \<Longrightarrow> \<exists>s. a = JStr s" for a
    by (cases a) (simp_all add: is_string_def)
  show "\<forall>a \<in> Collect is_string. \<forall>b \<in> Collect is_string. py_lt a b = Inr (\<not> holds (py_le b a))"
  proof (intro ballI)
    fix a b
    assume "a \<in> Collect is_string" "b \<in> Collect is_string"
    then obtain s t where "a = JStr s" "b = JStr t"
      using str by (metis mem_Collect_eq)
    then show "py_lt a b = Inr (\<not> holds (py_le b a))"
      using str_cmp_swap [of t s] by (simp add: le py_lt_def)
  qed
  show "\<forall>a \<in> Collect is_string. \<forall>b \<in> Collect is_string. \<forall>c \<in> Collect is_string.
     holds (py_le a b) \<longrightarrow> holds (py_le b c) \<longrightarrow> holds (py_le a c)"
  proof (intro ballI impI)
    fix a b c
    assume "a \<in> Collect is_string" "b \<in> Collect is_string" "c \<in> Collect is_string"
    then obtain s t u where "a = JStr s" "b = JStr t" "c = JStr u"
      using str by (metis mem_Collect_eq)
    moreover assume "holds (py_le a b)" "holds (py_le b c)"
    ultimately show "holds (py_le a c)"
      using str_cmp_trans [of s t u] by (simp add: le)
  qed
  show "\<forall>a \<in> Collect is_string. \<forall>b \<in> Collect is_string. holds (py_le a b) \<or> holds (py_le b a)"
  proof (intro ballI)
    fix a b
    assume "a \<in> Collect is_string" "b \<in> Collect is_string"
    then obtain s t where "a = JStr s" "b = JStr t"
      using str by (metis mem_Collect_eq)
    then show "holds (py_le a b) \<or> holds (py_le b a)"
      using str_cmp_swap [of s t] by (auto simp: le)
  qed
qed

lemma number_order:
  "\<forall>a \<in> Collect is_number. \<forall>b \<in> Collect is_number. py_lt a b = Inr (\<not> holds (py_le b a))"
  "\<forall>a \<in> Collect is_number. \<forall>b \<in> Collect is_number. \<forall>c \<in> Collect is_number.
     holds (py_le a b) \<longrightarrow> holds (py_le b c) \<longrightarrow> holds (py_le a c)"
  "\<forall>a \<in> Collect is_number. \<forall>b \<in> Collect is_number. holds (py_le a b) \<or> holds (py_le b a)"
proof -
  define num where "num = (\<lambda>x. case x of JInt i \<Rightarrow> i | JBool b \<Rightarrow> bool_int b | _ \<Rightarrow> 0)"
  have cmp: "is_number a \<Longrightarrow> is_number b \<Longrightarrow> py_cmp a b = Inr (int_cmp (num a) (num b))" for a b
    by (cases a; cases b) (simp_all add: is_number_def num_def)
  have le: "is_number a \<Longrightarrow> is_number b \<Longrightarrow> holds (py_le a b) = (num a \<le> num b)" for a b
    using cmp [of a b] by (simp add: py_le_def holds_def int_cmp_def)
  have lt: "is_number a \<Longrightarrow> is_number b \<Longrightarrow> py_lt a b = Inr (num a < num b)" for a b
    using cmp [of a b] by (simp add: py_lt_def int_cmp_def)
  show "\<forall>a \<in> Collect is_number. \<forall>b \<in> Collect is_number. py_lt a b = Inr (\<not> holds (py_le b a))"
    using le lt by auto
  show "\<forall>a \<in> Collect is_number. \<forall>b \<in> Collect is_number. \<forall>c \<in> Collect is_number.
     holds (py_le a b) \<longrightarrow> holds (py_le b c) \<longrightarrow> holds (py_le a c)"
    using le by auto
  show "\<forall>a \<in> Collect is_number. \<forall>b \<in> Collect is_number. holds (py_le a b) \<or> holds (py_le b a)"
    using le by auto
qed

text \<open>The sort stage on rows that are dicts: the keys are read without error.\<close>

lemma row_keys_of_dicts:
  "\<forall>r \<in> set rows. \<exists>d. r = JDict d \<Longrightarrow>
     map_err (\<lambda>x. py_get x ob (JStr [])) rows = Inr (map (row_key ob) rows)"
  by (induction rows) (auto simp: row_key_def split: option.splits)

lemma first_row_keys_of_dicts:
  "\<forall>r \<in> set rows. \<exists>d. r = JDict d \<Longrightarrow>
     (if truthy (JList rows) then first_row_keys (JList rows) else Inr ()) = Inr ()"
  by (cases rows) (auto simp: first_row_keys_def)

lemma sort_stage_of_dicts:
  assumes "ob \<noteq> []" and "\<forall>r \<in> set rows. \<exists>d. r = JDict d"
  shows "sort_stage X (Some ob) rv (JList rows) =
           (case py_sorted rv (zip (map (row_key ob) rows) rows) of
              Inr r \<Rightarrow> Inr (JList r)
            | Inl e \<Rightarrow>
                (case py_sorted rv (zip (map (\<lambda>r. JStr (py_str X (row_key ob r))) rows) rows) of
                   Inl e' \<Rightarrow> Inl e'
                 | Inr r \<Rightarrow> Inr (JList r)))"
proof -
  show ?thesis
  proof (cases "py_sorted rv (zip (map (row_key ob) rows) rows)")
    case (Inl e)
    then have "e = TypeError" by (rule py_sorted_error)
    then show ?thesis
      using assms(1) Inl
      by (simp add: sort_stage_def first_row_keys_of_dicts [OF assms(2)]
            row_keys_of_dicts [OF assms(2)] comp_def del: truthy.simps)
  next
    case (Inr r)
    then show ?thesis
      using assms(1)
      by (simp add: sort_stage_def first_row_keys_of_dicts [OF assms(2)]
            row_keys_of_dicts [OF assms(2)] del: truthy.simps)
  qed
qed

text \<open>
  Claim C5. With \<open>order_by\<close> set, the sort stage of \<open>select\<close> never raises on rows that are
  dicts, whatever the types of the sort keys: it returns a permutation of the rows. A row
  without the field has the key \<open>''\<close>. When the keys are all numbers or all strings the
  result is in ascending order of the key, and in descending order (the reverse of it is
  ascending) when \<open>reverse\<close> is set. When the keys cannot be compared, the result is in
  that order of the string representations of the keys.
\<close>

theorem sort_never_raises_on_mixed_keys:
  assumes "ob \<noteq> []" and "\<forall>r \<in> set rows. \<exists>d. r = JDict d"
  shows "\<exists>out. sort_stage X (Some ob) rv (JList rows) = Inr (JList out) \<and> mset out = mset rows
           \<and> ((\<forall>r \<in> set rows. is_number (row_key ob r)) \<or> (\<forall>r \<in> set rows. is_string (row_key ob r))
                \<longrightarrow> ascending_by (row_key ob) (if rv then rev out else out))
           \<and> ((\<exists>e. py_sorted rv (zip (map (row_key ob) rows) rows) = Inl e)
                \<longrightarrow> ascending_by (\<lambda>r. JStr (py_str X (row_key ob r))) (if rv then rev out else out))
           \<and> (\<forall>d. JDict d \<in> set rows \<longrightarrow> map_of d ob = None \<longrightarrow> row_key ob (JDict d) = JStr [])"
proof -
  let ?raw = "py_sorted rv (zip (map (row_key ob) rows) rows)"
  let ?skey = "\<lambda>r. JStr (py_str X (row_key ob r))"
  have dflt: "\<forall>d. JDict d \<in> set rows \<longrightarrow> map_of d ob = None \<longrightarrow> row_key ob (JDict d) = JStr []"
    by (simp add: row_key_def)
  have homog: "\<exists>out. ?raw = Inr out \<and> mset out = mset rows
                 \<and> ascending_by (row_key ob) (if rv then rev out else out)"
    if "(\<forall>r \<in> set rows. is_number (row_key ob r)) \<or> (\<forall>r \<in> set rows. is_string (row_key ob r))"
    using that
  proof
    assume "\<forall>r \<in> set rows. is_number (row_key ob r)"
    then have "\<forall>r \<in> set rows. row_key ob r \<in> Collect is_number" by simp
    from py_sorted_sorted [OF number_order this] show ?thesis
      unfolding ascending_by_def .
  next
    assume "\<forall>r \<in> set rows. is_string (row_key ob r)"
    then have "\<forall>r \<in> set rows. row_key ob r \<in> Collect is_string" by simp
    from py_sorted_sorted [OF string_order this] show ?thesis
      unfolding ascending_by_def .
  qed
  have "\<forall>r \<in> set rows. ?skey r \<in> Collect is_string"
    by (simp add: is_string_def)
  from py_sorted_sorted [OF string_order this]
  obtain out2 where out2: "py_sorted rv (zip (map ?skey rows) rows) = Inr out2"
      "mset out2 = mset rows" "ascending_by ?skey (if rv then rev out2 else out2)"
    unfolding ascending_by_def by blast
  show ?thesis
  proof (cases ?raw)
    case (Inl e)
    have s: "sort_stage X (Some ob) rv (JList rows) = Inr (JList out2)"
      unfolding sort_stage_of_dicts [OF assms] using Inl out2(1) by simp
    have "\<not> ((\<forall>r \<in> set rows. is_number (row_key ob r)) \<or> (\<forall>r \<in> set rows. is_string (row_key ob r)))"
      using homog Inl by auto
    then show ?thesis
      using s out2(2,3) dflt by blast
  next
    case (Inr out)
    have s: "sort_stage X (Some ob) rv (JList rows) = Inr (JList out)"
      unfolding sort_stage_of_dicts [OF assms] using Inr by simp
    have m: "mset out = mset rows"
      using Inr by (rule py_sorted_mset)
    have a: "ascending_by (row_key ob) (if rv then rev out else out)"
      if "(\<forall>r \<in> set rows. is_number (row_key ob r)) \<or> (\<forall>r \<in> set rows. is_string (row_key ob r))"
      using homog [OF that] Inr by auto
    have n: "\<not> (\<exists>e. ?raw = Inl e)"
      using Inr by simp
    show ?thesis
      using s m a n dflt by blast
  qed
qed

lemma mixed_rows_raw_sort_raises:
  "py_sorted False (zip (map (row_key ''age'') mixed_rows) mixed_rows) = Inl TypeError"
  by code_simp

lemma mixed_rows_sorted:
  "sort_stage plain_ext (Some ''age'') False (JList mixed_rows)
   = Inr (JList [JDict [(''name'', JStr ''Alice''), (''age'', JInt 34)],
                 JDict [(''name'', JStr ''Eve'')],
                 JDict [(''name'', JStr ''Bob''), (''age'', JStr ''n/a'')]])"
  by code_simp

theorem sort_never_raises_on_mixed_keys_witness:
  "''age'' \<noteq> []
   \<and> mixed_rows = [JDict [(''name'', JStr ''Bob''), (''age'', JStr ''n/a'')],
                   JDict [(''name'', JStr ''Alice''), (''age'', JInt 34)],
                   JDict [(''name'', JStr ''Eve'')]]
   \<and> py_sorted False (zip (map (row_key ''age'') mixed_rows) mixed_rows) = Inl TypeError
   \<and> sort_stage plain_ext (Some ''age'') False (JList mixed_rows)
     = Inr (JList [JDict [(''name'', JStr ''Alice''), (''age'', JInt 34)],
                   JDict [(''name'', JStr ''Eve'')],
                   JDict [(''name'', JStr ''Bob''), (''age'', JStr ''n/a'')]])
   \<and> ascending_by (\<lambda>r. JStr (py_str plain_ext (row_key ''age'' r)))
       [JDict [(''name'', JStr ''Alice''), (''age'', JInt 34)],
        JDict [(''name'', JStr ''Eve'')],
        JDict [(''name'', JStr ''Bob''), (''age'', JStr ''n/a'')]]"
  using sort_never_raises_on_mixed_keys [of "''age''" mixed_rows plain_ext False]
    mixed_rows_raw_sort_raises
  by (simp add: mixed_rows_sorted) (simp add: mixed_rows_def)

section \<open>Rollback\<close>

text \<open>
  What the rollback does put back. When the body raises, \<open>self._data\<close> is the snapshot
  again, whatever the body did to it before raising, so every entry has the row count it
  had at entry, and the exception of the body is the exception of the \<open>with\<close> statement.
  Only \<open>self._data\<close> is put back: the clock and the files stay as the body left them.
\<close>

lemma rollback_restores_memory:
  "body s = (Inl e, s1) \<Longrightarrow>
     transaction X body s = (Inl e, s1\<lparr>data := data s\<rparr>)
     \<and> data (snd (transaction X body s)) = data s
     \<and> row_counts (snd (transaction X body s)) = row_counts s"
  by (simp add: transaction_def row_counts_def)

lemma run_failing_body:
  "run plain_ext failing_body users_db
   = (Inl (Raised ''boom''),
      \<lparr>data =
        [(''_meta'', JDict [(''tables'', JList [JStr ''orders'', JStr ''users'']),
                            (''created'', JStr ''t''), (''version'', JStr ''1.0.0''),
                            (''last_modified'', JStr ''tIIII'')]),
         (''users'', JList [JDict [(''name'', JStr ''Alice''), (''age'', JInt 28)],
                            JDict [(''name'', JStr ''Eve''), (''_inserted_at'', JStr ''tI'')]]),
         (''orders'', JList [])],
       backup = True,
       db_file = Some (Document
        [(''_meta'', JDict [(''tables'', JList [JStr ''orders'', JStr ''users'']),
                            (''created'', JStr ''t''), (''version'', JStr ''1.0.0''),
                            (''last_modified'', JStr ''tIII'')]),
         (''users'', JList [JDict [(''name'', JStr ''Alice''), (''age'', JInt 28)],
                            JDict [(''name'', JStr ''Eve''), (''_inserted_at'', JStr ''tI'')]]),
         (''orders'', JList [])]),
       backup_file = Some (Document
        [(''_meta'', JDict [(''tables'', JList [JStr ''users'']),
                            (''created'', JStr ''t''), (''version'', JStr ''1.0.0''),
                            (''last_modified'', JStr ''tII'')]),
         (''users'', JList [JDict [(''name'', JStr ''Alice''), (''age'', JInt 28)],
                            JDict [(''name'', JStr ''Eve''), (''_inserted_at'', JStr ''tI'')]])]),
       tmp_file = None, ticks = 5\<rparr>)"
  by code_simp

lemma failed_transaction_in_memory:
  "fst (transaction plain_ext (run plain_ext failing_body) users_db) = Inl (Raised ''boom'')
   \<and> data (snd (transaction plain_ext (run plain_ext failing_body) users_db)) = data users_db
   \<and> row_counts (snd (transaction plain_ext (run plain_ext failing_body) users_db))
       = [(''_meta'', Inr 3), (''users'', Inr 2)]"
  using rollback_restores_memory
      [of "run plain_ext failing_body" users_db "Raised ''boom''" _ plain_ext] run_failing_body
  by (simp add: row_counts_def users_db_def)

text \<open>
  C7 fails on the code. The docstring of \<open>transaction\<close> says that all changes are rolled
  back if any operation fails, but the \<open>except\<close> branch assigns the snapshot to
  \<open>self._data\<close> and writes nothing, while every operation of the body has already written
  the file. On the store with Alice and Bob and no file yet, the body inserts Eve, deletes
  Bob, creates the table \<open>orders\<close> and raises: the exception reaches the caller and the
  store in memory is the snapshot, but the file holds Eve, no Bob and the table \<open>orders\<close>,
  and a second \<open>CafeDB\<close> on the same path loads exactly that. The partial effect of the
  body survives the failed transaction.
\<close>

theorem failed_transaction_survives_in_the_file:
  "fst (transaction plain_ext (run plain_ext failing_body) users_db) = Inl (Raised ''boom'')
   \<and> data (snd (transaction plain_ext (run plain_ext failing_body) users_db)) = data users_db
   \<and> db_file users_db = None
   \<and> db_file (snd (transaction plain_ext (run plain_ext failing_body) users_db)) =
       Some (Document
        [(''_meta'', JDict [(''tables'', JList [JStr ''orders'', JStr ''users'']),
                            (''created'', JStr ''t''), (''version'', JStr ''1.0.0''),
                            (''last_modified'', JStr ''tIII'')]),
         (''users'', JList [JDict [(''name'', JStr ''Alice''), (''age'', JInt 28)],
                            JDict [(''name'', JStr ''Eve''), (''_inserted_at'', JStr ''tI'')]]),
         (''orders'', JList [])])
   \<and> map_sum id data
        (reopen plain_ext (snd (transaction plain_ext (run plain_ext failing_body) users_db))) =
       Inr [(''_meta'', JDict [(''tables'', JList [JStr ''orders'', JStr ''users'']),
                               (''created'', JStr ''t''), (''version'', JStr ''1.0.0''),
                               (''last_modified'', JStr ''tIII'')]),
            (''users'', JList [JDict [(''name'', JStr ''Alice''), (''age'', JInt 28)],
                               JDict [(''name'', JStr ''Eve''), (''_inserted_at'', JStr ''tI'')]]),
            (''orders'', JList [])]
   \<and> map_sum id data
        (reopen plain_ext (snd (transaction plain_ext (run plain_ext failing_body) users_db)))
       \<noteq> Inr (data users_db)"
  using run_failing_body
  by (simp add: transaction_def reopen_def init_def read_db_def keys_def users_db_def)

section \<open>The invariant and the reserved key\<close>

text \<open>
  C9 fails on the code. \<open>drop_table\<close> tests \<open>table_name not in self._data\<close>, which
  \<open>_meta\<close> passes, and has no check of the underscore as \<open>create_table\<close> has: on a store
  that satisfies the invariant, \<open>drop_table("_meta")\<close> deletes the metadata and then raises
  \<open>KeyError\<close> at \<open>self._data["_meta"]["tables"]\<close>. The store it leaves has no metadata and
  \<open>list_tables\<close> raises on it.
\<close>

theorem drop_table_meta_breaks_invariant:
  "store_inv users_db
   \<and> drop_table plain_ext users_db ''_meta''
       = (Inl (KeyError ''_meta''),
          users_db\<lparr>data := [(''users'', JList [JDict [(''name'', JStr ''Alice''), (''age'', JInt 28)],
                                              JDict [(''name'', JStr ''Bob''), (''age'', JInt 34)]])]\<rparr>)
   \<and> \<not> store_inv (snd (drop_table plain_ext users_db ''_meta''))
   \<and> list_tables (snd (drop_table plain_ext users_db ''_meta'')) = Inl (KeyError ''_meta'')"
  by (simp add: store_inv_def drop_table_def users_db_def dict_del_def meta_tables_def
      list_tables_def keys_def table_names_def)

section \<open>What select returns\<close>












section \<open>The invariant is kept\<close>

text \<open>
  The invariant speaks of \<open>self._data\<close> only. A write keeps it and cannot fail on a store
  that satisfies it; so does the assignment of a new value to a table that exists.
\<close>

lemma store_inv_data: "data s' = data s \<Longrightarrow> store_inv s' = store_inv s"
  by (simp add: store_inv_iff)

lemma table_names_dict_set:
  "k \<in> set (keys d) \<Longrightarrow> table_names (dict_set d k v) = table_names d"
  by (simp add: table_names_def keys_dict_set_present)

lemma store_inv_meta_update:
  assumes inv: "store_inv s"
    and m: "map_of (data s) ''_meta'' = Some (JDict m)"
    and d: "data s' = dict_set (data s) ''_meta'' (JDict (dict_set m k v))"
    and k: "k \<noteq> ''tables''"
  shows "store_inv s'"
proof -
  from inv m obtain ts where ts: "map_of m ''tables'' = Some (JList ts)"
    and rest: "distinct (keys (data s))" "distinct ts"
      "set ts = set (map JStr (table_names (data s)))"
      "list_all (\<lambda>n. \<not> startswith n ''_'') (table_names (data s))"
    unfolding store_inv_iff by auto
  have mem: "''_meta'' \<in> set (keys (data s))"
    using m by (rule map_of_keys)
  have "map_of (data s') ''_meta'' = Some (JDict (dict_set m k v))"
    by (simp add: d map_of_dict_set)
  moreover have "map_of (dict_set m k v) ''tables'' = Some (JList ts)"
    using ts k by (simp add: map_of_dict_set)
  moreover have "keys (data s') = keys (data s)"
    by (simp add: d keys_dict_set_present [OF mem])
  moreover have "table_names (data s') = table_names (data s)"
    by (simp add: d table_names_dict_set [OF mem])
  ultimately show ?thesis
    unfolding store_inv_iff using rest by simp
qed

lemma write_db_inv:
  assumes inv: "store_inv s" and w: "write_db X s = (r, s')"
  shows "r = Inr () \<and> store_inv s'"
proof -
  from inv obtain m where m: "map_of (data s) ''_meta'' = Some (JDict m)"
    unfolding store_inv_iff by blast
  from m w have r: "r = Inr ()"
    by (auto simp: write_db_def Let_def split: if_splits)
  from write_db_ok [of X s "()" s'] w r m
  have d: "data s' = dict_set (data s) ''_meta''
              (JDict (dict_set m ''last_modified'' (JStr (now X (ticks s)))))"
    by auto
  from store_inv_meta_update [OF inv m d] r show ?thesis
    by simp
qed

lemma store_inv_entry:
  assumes inv: "store_inv s" and t: "table_name \<in> set (keys (data s))"
    and n: "table_name \<noteq> ''_meta''"
    and d: "data s' = dict_set (data s) table_name v"
  shows "store_inv s'"
proof -
  from inv obtain m ts where m: "map_of (data s) ''_meta'' = Some (JDict m)"
    and ts: "map_of m ''tables'' = Some (JList ts)"
    and rest: "distinct (keys (data s))" "distinct ts"
      "set ts = set (map JStr (table_names (data s)))"
      "list_all (\<lambda>n. \<not> startswith n ''_'') (table_names (data s))"
    unfolding store_inv_iff by blast
  have "map_of (data s') ''_meta'' = Some (JDict m)"
    using m n by (simp add: d map_of_dict_set)
  moreover have "keys (data s') = keys (data s)"
    by (simp add: d keys_dict_set_present [OF t])
  moreover have "table_names (data s') = table_names (data s)"
    by (simp add: d table_names_dict_set [OF t])
  ultimately show ?thesis
    unfolding store_inv_iff using ts rest by simp
qed

text \<open>The operations on the rows of a table other than \<open>_meta\<close> keep the invariant.\<close>

lemma clear_table_inv:
  assumes inv: "store_inv s" and n: "table_name \<noteq> ''_meta''"
  shows "store_inv (snd (clear_table X s table_name))"
proof (cases "map_of (data s) table_name")
  case None
  then show ?thesis using inv by (simp add: clear_table_def)
next
  case (Some entry)
  then have mem: "table_name \<in> set (keys (data s))" by (rule map_of_keys)
  have i1: "store_inv (s\<lparr>data := dict_set (data s) table_name v\<rparr>)" for v
    by (rule store_inv_entry [OF inv mem n]) simp
  show ?thesis
    using Some inv write_db_inv [OF i1]
    by (auto simp: clear_table_def split: sum.splits prod.splits)
qed

lemma delete_inv:
  assumes inv: "store_inv s" and n: "table_name \<noteq> ''_meta''"
  shows "store_inv (snd (delete X s table_name f))"
proof (cases "map_of (data s) table_name")
  case None
  then show ?thesis using inv by (simp add: delete_def)
next
  case (Some entry)
  then have mem: "table_name \<in> set (keys (data s))" by (rule map_of_keys)
  have i1: "store_inv (s\<lparr>data := dict_set (data s) table_name v\<rparr>)" for v
    by (rule store_inv_entry [OF inv mem n]) simp
  show ?thesis
    using Some inv i1 write_db_inv [OF i1]
    by (auto simp: delete_def Let_def split: sum.splits prod.splits)
qed

lemma insert_row_inv:
  assumes inv: "store_inv s" and n: "table_name \<noteq> ''_meta''"
  shows "store_inv (snd (insert_row X s table_name row))"
proof (cases "map_of (data s) table_name")
  case None
  then show ?thesis using inv by (simp add: insert_row_def)
next
  case (Some entry)
  then have mem: "table_name \<in> set (keys (data s))" by (rule map_of_keys)
  have i0: "store_inv (s\<lparr>ticks := k\<rparr>)" for k
    using inv store_inv_data [of "s\<lparr>ticks := k\<rparr>" s] by simp
  have i1: "store_inv (s\<lparr>ticks := k, data := dict_set (data s) table_name v\<rparr>)" for v k
    by (rule store_inv_entry [OF inv mem n]) simp
  have w: "store_inv (snd (write_db X (s\<lparr>ticks := k, data := dict_set (data s) table_name v\<rparr>)))"
    for v k
    using write_db_inv [OF i1] by (metis prod.collapse)
  show ?thesis
    using Some inv i0 w
    by (simp add: insert_row_def Let_def split: json.splits)
qed

lemma insert_many_inv:
  assumes inv: "store_inv s" and n: "table_name \<noteq> ''_meta''"
  shows "store_inv (snd (insert_many X s table_name rows))"
proof (cases "map_of (data s) table_name")
  case None
  then show ?thesis using inv by (simp add: insert_many_def)
next
  case (Some entry)
  then have mem: "table_name \<in> set (keys (data s))" by (rule map_of_keys)
  have i0: "store_inv (s\<lparr>ticks := k\<rparr>)" for k
    using inv store_inv_data [of "s\<lparr>ticks := k\<rparr>" s] by simp
  have i1: "store_inv (s\<lparr>ticks := k, data := dict_set (data s) table_name v\<rparr>)" for v k
    by (rule store_inv_entry [OF inv mem n]) simp
  show ?thesis
    using Some inv i0 write_db_inv [OF i1]
    by (auto simp: insert_many_def Let_def split: json.splits sum.splits prod.splits)
qed

lemma update_inv:
  assumes inv: "store_inv s" and n: "table_name \<noteq> ''_meta''"
  shows "store_inv (snd (update X s table_name f u))"
proof (cases "map_of (data s) table_name")
  case None
  then show ?thesis using inv by (simp add: update_def)
next
  case (Some entry)
  then have mem: "table_name \<in> set (keys (data s))" by (rule map_of_keys)
  have i0: "store_inv (s\<lparr>data := data s, ticks := k\<rparr>)" for k
    using inv store_inv_data [of "s\<lparr>data := data s, ticks := k\<rparr>" s] by simp
  have i1: "store_inv (s\<lparr>data := dict_set (data s) table_name v, ticks := k\<rparr>)" for v k
    by (rule store_inv_entry [OF inv mem n]) simp
  show ?thesis
  proof (cases "is_other f \<or> is_other_updater u")
    case True
    then show ?thesis using Some inv by (auto simp: update_def)
  next
    case False
    show ?thesis
    proof (cases "py_iter entry")
      case (Inl e)
      then show ?thesis using Some False inv by (simp add: update_def)
    next
      case (Inr rows)
      obtain err rows' c k where
        ur: "update_rows X f u
               (case entry of JList xs \<Rightarrow> None | JDict d \<Rightarrow> Some (Raised ''RuntimeError'')
                | _ \<Rightarrow> Some TypeError) (ticks s) rows = (err, rows', c, k)"
        by (metis prod_cases4)
      let ?s1 = "s\<lparr>data := (case entry of JList xs \<Rightarrow> dict_set (data s) table_name (JList rows')
                               | _ \<Rightarrow> data s), ticks := k\<rparr>"
      have s1: "store_inv ?s1"
        using i0 [of k] i1 by (cases entry) simp_all
      have "update X s table_name f u =
              (case err of
                 Some e \<Rightarrow> (Inl e, ?s1)
               | None \<Rightarrow>
                   if c > 0 then
                     (case write_db X ?s1 of
                        (Inl e, s2) \<Rightarrow> (Inl e, s2)
                      | (Inr w, s2) \<Rightarrow> (Inr c, s2))
                   else (Inr c, ?s1))"
        using Some False Inr ur by (simp add: update_def Let_def)
      then show ?thesis
        using s1 write_db_inv [OF s1]
        by (auto split: option.splits sum.splits prod.splits)
    qed
  qed
qed

text \<open>
  \<open>create_table\<close> and \<open>drop_table\<close>. The list of names is a list of strings, so sorting it
  cannot raise, and the name of a table that exists is in it, so \<open>remove\<close> finds it.
\<close>

lemma map_of_dict_del: "map_of (dict_del d k) k' = (if k' = k then None else map_of d k')"
  by (induction d) (auto simp: dict_del_def)

lemma keys_dict_del: "keys (dict_del d k) = filter (\<lambda>x. x \<noteq> k) (keys d)"
  by (induction d) (auto simp: dict_del_def keys_def)

lemma set_tables_eq:
  "map_of d ''_meta'' = Some (JDict m) \<Longrightarrow>
     set_tables d t = dict_set d ''_meta'' (JDict (dict_set m ''tables'' t))"
  by (simp add: set_tables_def)

lemma meta_tables_eq:
  "map_of d ''_meta'' = Some (JDict m) \<Longrightarrow> map_of m ''tables'' = Some t \<Longrightarrow>
     meta_tables d = Inr t"
  by (simp add: meta_tables_def)

lemma store_inv_set_tables:
  assumes m: "map_of d ''_meta'' = Some (JDict m)"
    and k: "distinct (keys d)" and t: "distinct ts"
    and names: "set ts = set (map JStr (table_names d))"
    and under: "list_all (\<lambda>n. \<not> startswith n ''_'') (table_names d)"
    and d: "data s' = set_tables d (JList ts)"
  shows "store_inv s'"
proof -
  have mem: "''_meta'' \<in> set (keys d)"
    using m by (rule map_of_keys)
  have d': "data s' = dict_set d ''_meta'' (JDict (dict_set m ''tables'' (JList ts)))"
    using d set_tables_eq [OF m] by simp
  have "map_of (data s') ''_meta'' = Some (JDict (dict_set m ''tables'' (JList ts)))"
    by (simp add: d' map_of_dict_set)
  moreover have "map_of (dict_set m ''tables'' (JList ts)) ''tables'' = Some (JList ts)"
    by (simp add: map_of_dict_set)
  moreover have "keys (data s') = keys d"
    by (simp add: d' keys_dict_set_present [OF mem])
  moreover have "table_names (data s') = table_names d"
    by (simp add: d' table_names_dict_set [OF mem])
  ultimately show ?thesis
    unfolding store_inv_iff using k t names under by simp
qed

lemma py_remove_name:
  "set ts \<subseteq> range JStr \<Longrightarrow> distinct ts \<Longrightarrow> JStr n \<in> set ts \<Longrightarrow>
     \<exists>ts'. py_remove (JStr n) ts = Some ts' \<and> set ts' = set ts - {JStr n} \<and> distinct ts'"
proof (induction ts)
  case Nil
  then show ?case by simp
next
  case (Cons t ts)
  from Cons.prems(1) obtain a where a: "t = JStr a" by auto
  show ?case
  proof (cases "a = n")
    case True
    then show ?thesis using a Cons.prems(2) by auto
  next
    case False
    with a Cons.prems have "set ts \<subseteq> range JStr" "distinct ts" "JStr n \<in> set ts"
      by auto
    from Cons.IH [OF this] obtain ts' where
      "py_remove (JStr n) ts = Some ts'" "set ts' = set ts - {JStr n}" "distinct ts'"
      by blast
    then show ?thesis using a False Cons.prems(2) by auto
  qed
qed

lemma drop_table_inv:
  assumes inv: "store_inv s" and n: "table_name \<noteq> ''_meta''"
  shows "store_inv (snd (drop_table X s table_name))"
proof (cases "map_of (data s) table_name")
  case None
  then show ?thesis using inv by (simp add: drop_table_def)
next
  case (Some entry)
  then have mem: "table_name \<in> set (keys (data s))" by (rule map_of_keys)
  from inv obtain m ts where m: "map_of (data s) ''_meta'' = Some (JDict m)"
    and ts: "map_of m ''tables'' = Some (JList ts)"
    and dk: "distinct (keys (data s))" and dt: "distinct ts"
    and names: "set ts = set (map JStr (table_names (data s)))"
    and under: "list_all (\<lambda>n. \<not> startswith n ''_'') (table_names (data s))"
    unfolding store_inv_iff by blast
  show ?thesis
  proof (cases "py_len entry")
    case (Inl e)
    then show ?thesis using Some inv by (simp add: drop_table_def)
  next
    case (Inr row_count)
    let ?d1 = "dict_del (data s) table_name"
    have m1: "map_of ?d1 ''_meta'' = Some (JDict m)"
      using m n by (simp add: map_of_dict_del)
    have mt: "meta_tables ?d1 = Inr (JList ts)"
      using m1 ts by (rule meta_tables_eq)
    have "table_name \<in> set (table_names (data s))"
      using mem n by (simp add: table_names_def)
    then have "JStr table_name \<in> set ts"
      using names by simp
    moreover have "set ts \<subseteq> range JStr"
      using names by auto
    ultimately obtain ts' where rm: "py_remove (JStr table_name) ts = Some ts'"
      and set': "set ts' = set ts - {JStr table_name}" and dt': "distinct ts'"
      using py_remove_name [OF _ dt] by blast
    let ?s2 = "s\<lparr>data := set_tables ?d1 (JList ts')\<rparr>"
    have tn: "table_names ?d1 = filter (\<lambda>x. x \<noteq> table_name) (table_names (data s))"
      by (simp add: table_names_def keys_dict_del) (metis (mono_tags, lifting) filter_cong)
    have "set ts' = set (map JStr (table_names ?d1))"
      using set' names by (auto simp: tn)
    moreover have "list_all (\<lambda>n. \<not> startswith n ''_'') (table_names ?d1)"
      using under by (simp add: tn list_all_iff)
    moreover have "distinct (keys ?d1)"
      using dk by (simp add: keys_dict_del)
    ultimately have i2: "store_inv ?s2"
      using store_inv_set_tables [OF m1 _ dt', of ?s2] by simp
    obtain r s3 where w: "write_db X ?s2 = (r, s3)"
      by (cases "write_db X ?s2")
    have "drop_table X s table_name = (r, s3)"
      using Some Inr mt rm w by (simp add: drop_table_def Let_def)
    then show ?thesis
      using write_db_inv [OF i2 w] by simp
  qed
qed

lemma sorted_names:
  assumes "set ts \<subseteq> range JStr"
  shows "\<exists>out. py_sorted False (map (\<lambda>x. (x, x)) ts) = Inr out \<and> mset out = mset ts"
proof -
  have "\<forall>x \<in> set ts. (\<lambda>x. x) x \<in> Collect is_string"
    using assms by (auto simp: is_string_def)
  from py_sorted_sorted [OF string_order this, of False]
  show ?thesis
    by (auto simp: zip_same_conv_map)
qed

lemma create_table_inv:
  assumes inv: "store_inv s"
  shows "store_inv (snd (create_table X s table_name))"
proof (cases "table_name \<in> set (keys (data s)) \<or> startswith table_name ''_''")
  case True
  then show ?thesis using inv by (auto simp: create_table_def)
next
  case False
  then have new: "table_name \<notin> set (keys (data s))" and plain: "\<not> startswith table_name ''_''"
    by simp_all
  from inv obtain m ts where m: "map_of (data s) ''_meta'' = Some (JDict m)"
    and ts: "map_of m ''tables'' = Some (JList ts)"
    and dk: "distinct (keys (data s))" and dt: "distinct ts"
    and names: "set ts = set (map JStr (table_names (data s)))"
    and under: "list_all (\<lambda>n. \<not> startswith n ''_'') (table_names (data s))"
    unfolding store_inv_iff by blast
  have n: "table_name \<noteq> ''_meta''"
    using plain by auto
  let ?d1 = "dict_set (data s) table_name (JList [])"
  let ?app = "ts @ [JStr table_name]"
  have m1: "map_of ?d1 ''_meta'' = Some (JDict m)"
    using m n by (simp add: map_of_dict_set)
  have mt: "meta_tables ?d1 = Inr (JList ts)"
    using m1 ts by (rule meta_tables_eq)
  have k1: "keys ?d1 = keys (data s) @ [table_name]"
    using new by (simp add: keys_dict_set_eq)
  have tn: "table_names ?d1 = table_names (data s) @ [table_name]"
    using n by (simp add: table_names_def k1)
  have "set ?app \<subseteq> range JStr"
    using names by auto
  then obtain out where out: "py_sorted False (map (\<lambda>x. (x, x)) ?app) = Inr out"
    and perm: "mset out = mset ?app"
    using sorted_names by blast
  let ?d2 = "set_tables ?d1 (JList ?app)"
  let ?m2 = "dict_set m ''tables'' (JList ?app)"
  let ?s3 = "s\<lparr>data := set_tables ?d2 (JList out)\<rparr>"
  have d2: "?d2 = dict_set ?d1 ''_meta'' (JDict ?m2)"
    using m1 by (rule set_tables_eq)
  have mem1: "''_meta'' \<in> set (keys ?d1)"
    using m1 by (rule map_of_keys)
  have m2: "map_of ?d2 ''_meta'' = Some (JDict ?m2)"
    by (simp add: d2 map_of_dict_set)
  have k2: "keys ?d2 = keys (data s) @ [table_name]"
    by (simp add: d2 keys_dict_set_present [OF mem1] k1)
  have tn2: "table_names ?d2 = table_names (data s) @ [table_name]"
    by (simp add: d2 table_names_dict_set [OF mem1] tn)
  have "JStr table_name \<notin> set ts"
    using names new by (auto simp: table_names_def)
  then have "distinct ?app"
    using dt by simp
  then have dout: "distinct out"
    using perm by (metis mset_eq_imp_distinct_iff)
  have "set out = set ?app"
    using perm by (rule mset_eq_setD)
  then have sout: "set out = set (map JStr (table_names ?d2))"
    using names by (simp add: tn2)
  have dk2: "distinct (keys ?d2)"
    using dk new by (simp add: k2)
  have under2: "list_all (\<lambda>n. \<not> startswith n ''_'') (table_names ?d2)"
    using under plain by (simp add: tn2)
  have i3: "store_inv ?s3"
    using store_inv_set_tables [OF m2 dk2 dout sout under2, of ?s3] by simp
  obtain r s4 where w: "write_db X ?s3 = (r, s4)"
    by (cases "write_db X ?s3")
  have "create_table X s table_name = (r, s4)"
    using new plain mt out w by (simp add: create_table_def Let_def)
  then show ?thesis
    using write_db_inv [OF i3 w] by simp
qed

text \<open>
  So every command that is not given the name \<open>_meta\<close> keeps the invariant, whether it
  returns or raises, and so does a body made of such commands, and a transaction around
  it. \<open>__init__\<close> on a path with no file gives a store that satisfies it.
\<close>

lemma snd_forget: "snd (forget r) = snd r"
  by (simp add: forget_def split: prod.splits sum.splits)

lemma exec_inv:
  assumes "store_inv s" and "table_of c \<noteq> Some ''_meta''"
  shows "store_inv (snd (exec X c s))"
proof (cases c)
  case (CreateTable n)
  then show ?thesis using assms(1) by (simp add: create_table_inv)
next
  case (DropTable n)
  then show ?thesis using assms by (simp add: drop_table_inv)
next
  case (Insert n row)
  then show ?thesis using assms by (simp add: insert_row_inv)
next
  case (InsertMany n rows)
  then show ?thesis
    using assms insert_many_inv [of s n X rows]
    by (simp add: snd_forget)
next
  case (Update n f u)
  then show ?thesis
    using assms update_inv [of s n X f u]
    by (simp add: snd_forget)
next
  case (Delete n f)
  then show ?thesis
    using assms delete_inv [of s n X f]
    by (simp add: snd_forget)
next
  case (ClearTable n)
  then show ?thesis
    using assms clear_table_inv [of s n X]
    by (simp add: snd_forget)
next
  case (Raise e)
  then show ?thesis using assms(1) by simp
qed

lemma run_inv:
  "store_inv s \<Longrightarrow> \<forall>c \<in> set cs. table_of c \<noteq> Some ''_meta'' \<Longrightarrow>
     store_inv (snd (run X cs s))"
proof (induction cs arbitrary: s)
  case Nil
  then show ?case by simp
next
  case (Cons c cs)
  obtain r s1 where e: "exec X c s = (r, s1)"
    by (cases "exec X c s")
  have s1: "store_inv s1"
    using exec_inv [of s c X] Cons.prems e by simp
  show ?case
  proof (cases r)
    case (Inl err)
    then show ?thesis using e s1 by simp
  next
    case (Inr u)
    then show ?thesis using e Cons.IH [OF s1] Cons.prems(2) by simp
  qed
qed

lemma init_inv: "init X bk None bf tf k = Inr s \<Longrightarrow> store_inv s"
proof -
  assume a: "init X bk None bf tf k = Inr s"
  let ?s0 = "\<lparr>data = [(''_meta'', fresh_meta (now X k))], backup = bk, db_file = None,
              backup_file = bf, tmp_file = tf, ticks = Suc k\<rparr>"
  have i0: "store_inv ?s0"
    by (simp add: store_inv_def fresh_meta_def keys_def table_names_def)
  obtain r s1 where w: "write_db X ?s0 = (r, s1)"
    by (cases "write_db X ?s0")
  from write_db_inv [OF i0 w] have r: "r = Inr ()" and i1: "store_inv s1"
    by simp_all
  have mem: "''_meta'' \<in> set (keys (data s1))"
    using i1 unfolding store_inv_iff by (blast intro: map_of_keys)
  have "init X bk None bf tf k = Inr s1"
    using w r mem by (simp add: init_def Let_def)
  with a i1 show ?thesis by simp
qed

lemma transaction_inv:
  assumes "store_inv s" and "\<forall>c \<in> set cs. table_of c \<noteq> Some ''_meta''"
  shows "store_inv (snd (transaction X (run X cs) s))"
proof -
  obtain r s1 where b: "run X cs s = (r, s1)"
    by (cases "run X cs s")
  have s1: "store_inv s1"
    using run_inv [OF assms, of X] b by simp
  have restored: "store_inv (s'\<lparr>data := data s\<rparr>)" for s'
    using assms(1) store_inv_data [of "s'\<lparr>data := data s\<rparr>" s] by simp
  show ?thesis
  proof (cases r)
    case (Inl e)
    then show ?thesis using b restored by (simp add: transaction_def)
  next
    case (Inr u)
    obtain r2 s2 where w: "write_db X s1 = (r2, s2)"
      by (cases "write_db X s1")
    from write_db_inv [OF s1 w] show ?thesis
      using Inr b w by (simp add: transaction_def)
  qed
qed

text \<open>
  On a store constructed on a path with no file and then changed by commands that are not
  given the name \<open>_meta\<close>, the metadata entry is a key of the store, and \<open>list_tables\<close>
  returns the names of the tables, \<open>_meta\<close> not among them.
\<close>

lemma meta_entry_after_body:
  assumes i: "init X bk None bf tf k = Inr s0"
    and cs: "\<forall>c \<in> set cs. table_of c \<noteq> Some ''_meta''"
  shows "exists_table (snd (run X cs s0)) ''_meta''
         \<and> (\<exists>names. list_tables (snd (run X cs s0)) = Inr (JList (map JStr names))
               \<and> ''_meta'' \<notin> set names)"
proof -
  let ?s = "snd (run X cs s0)"
  have inv: "store_inv ?s"
    using run_inv [OF init_inv [OF i] cs] .
  then obtain m where "map_of (data ?s) ''_meta'' = Some (JDict m)"
    unfolding store_inv_iff by blast
  then have "exists_table ?s ''_meta''"
    unfolding exists_table_def by (rule map_of_keys)
  moreover from store_inv_lists_tables [OF inv] obtain names where
    "list_tables ?s = Inr (JList (map JStr names))" "set names = set (table_names (data ?s))"
    by blast
  then have "\<exists>names. list_tables ?s = Inr (JList (map JStr names)) \<and> ''_meta'' \<notin> set names"
    by (auto simp: table_names_def)
  ultimately show ?thesis by blast
qed

end
